theory Spec2Isabelle
  imports Main "HOL-Library.Word" "HOL-Library.Sublist"
begin

section \<open>Images\<close>

text \<open>
  The script \<^verbatim>\<open>scripts/convert_icons.py\<close> turns PNG toolbar icons into 48x48 BMP files
  with magenta as the transparency key. It works on images of the Pillow library: an
  image has a size (width, height) and one value per pixel, row by row. A channel value
  is one byte. A band (mode "L") holds one byte per pixel, an RGBA image four, an RGB
  image three.
\<close>

type_synonym byte = "8 word"
type_synonym rgba = "byte \<times> byte \<times> byte \<times> byte"
type_synonym rgb = "byte \<times> byte \<times> byte"

record 'p image =
  isize :: "nat \<times> nat"
  idata :: "'p list"

type_synonym band = "byte image"

text \<open>
  The exceptions that can end a call: \<open>OSError\<close> for a failure of the file system (a
  directory where a file is expected, a file where a directory is expected, a missing
  file), \<open>DecodeError\<close> when Pillow cannot read an image from the contents of a file, and
  \<open>ValueError\<close> when Pillow is given images whose sizes do not match.
\<close>

datatype error = OSError | DecodeError | ValueError

text \<open>
  The parts of the environment the script calls and that are not part of it: the absolute
  path of the script (\<^verbatim>\<open>__file__\<close>), Pillow's decoder followed by the conversion to RGBA
  (\<open>None\<close> when it raises), the Lanczos filter as the value of the resized image at a
  pixel, Pillow's mixing of two channel values under a mask value strictly between 0
  and 255, and its BMP encoder.
\<close>

record env =
  script_file :: "string list"
  decode_rgba :: "byte list \<Rightarrow> rgba image option"
  lanczos :: "nat \<times> nat \<Rightarrow> rgba image \<Rightarrow> nat \<Rightarrow> nat \<Rightarrow> rgba"
  mix :: "byte \<Rightarrow> byte \<Rightarrow> byte \<Rightarrow> byte"
  encode_bmp :: "rgb image \<Rightarrow> byte list"

definition ICON_SIZE :: nat where
  "ICON_SIZE = 48"

definition MAGENTA :: "int \<times> int \<times> int" where
  "MAGENTA = (255, 0, 255)"

definition DARK_GRAY :: "int \<times> int \<times> int" where
  "DARK_GRAY = (60, 60, 60)"

text \<open>\<^verbatim>\<open>im.getpixel((x, y))\<close>: the pixel in column \<open>x\<close> of row \<open>y\<close>; outside the image
  Pillow raises.\<close>

definition getpixel :: "'p image \<Rightarrow> nat \<times> nat \<Rightarrow> 'p option" where
  "getpixel im xy =
     (if fst xy < fst (isize im) \<and> snd xy < snd (isize im)
        \<and> snd xy * fst (isize im) + fst xy < length (idata im)
      then Some (idata im ! (snd xy * fst (isize im) + fst xy)) else None)"

text \<open>\<^verbatim>\<open>img.resize(size, Image.Resampling.LANCZOS)\<close>: a new image of exactly the
  requested size, each pixel computed by the filter.\<close>

definition resize :: "env \<Rightarrow> nat \<times> nat \<Rightarrow> rgba image \<Rightarrow> rgba image" where
  "resize E sz im =
     \<lparr>isize = sz,
      idata = map (\<lambda>i. lanczos E sz im (i mod fst sz) (i div fst sz)) [0..<fst sz * snd sz]\<rparr>"

text \<open>\<^verbatim>\<open>img.split()\<close> on an RGBA image: its four bands.\<close>

definition split :: "rgba image \<Rightarrow> band \<times> band \<times> band \<times> band" where
  "split im =
     (\<lparr>isize = isize im, idata = map (\<lambda>(r, g, b, a). r) (idata im)\<rparr>,
      \<lparr>isize = isize im, idata = map (\<lambda>(r, g, b, a). g) (idata im)\<rparr>,
      \<lparr>isize = isize im, idata = map (\<lambda>(r, g, b, a). b) (idata im)\<rparr>,
      \<lparr>isize = isize im, idata = map (\<lambda>(r, g, b, a). a) (idata im)\<rparr>)"

text \<open>\<^verbatim>\<open>band.point(f)\<close>: Pillow calls the Python function \<open>f\<close> on the integers 0 to 255
  to build a table and replaces every value of the band by its table entry.\<close>

definition point :: "(int \<Rightarrow> int) \<Rightarrow> band \<Rightarrow> band" where
  "point f b = b\<lparr>idata := map (\<lambda>v. word_of_int (f (uint v))) (idata b)\<rparr>"

text \<open>\<^verbatim>\<open>Image.merge("RGBA", (r, g, b, a))\<close>: raises when the bands differ in size.\<close>

definition merge :: "band \<Rightarrow> band \<Rightarrow> band \<Rightarrow> band \<Rightarrow> error + rgba image" where
  "merge r g b a =
     (if isize g = isize r \<and> isize b = isize r \<and> isize a = isize r
      then Inr \<lparr>isize = isize r,
                idata = zip (idata r) (zip (idata g) (zip (idata b) (idata a)))\<rparr>
      else Inl ValueError)"

text \<open>\<^verbatim>\<open>Image.new("RGB", size, color)\<close>: every pixel has the given colour.\<close>

definition new_rgb :: "nat \<times> nat \<Rightarrow> int \<times> int \<times> int \<Rightarrow> rgb image" where
  "new_rgb sz color =
     \<lparr>isize = sz,
      idata = replicate (fst sz * snd sz)
                (case color of (r, g, b) \<Rightarrow> (word_of_int r, word_of_int g, word_of_int b))\<rparr>"

text \<open>
  \<^verbatim>\<open>dst.paste(src, mask=mask)\<close> with no box: the source is laid over the destination
  from the top left corner and clipped to it. The mask must have the size of the source.
  Where the mask is 255 the source value is copied, where it is 0 the destination value
  stays, and in between Pillow mixes the two. The alpha value of an RGBA source is
  dropped when the destination is RGB.
\<close>

definition blend :: "env \<Rightarrow> byte \<Rightarrow> byte \<Rightarrow> byte \<Rightarrow> byte" where
  "blend E m d s = (if m = 255 then s else if m = 0 then d else mix E m d s)"

definition blend_pixel :: "env \<Rightarrow> byte \<Rightarrow> rgb \<Rightarrow> rgba \<Rightarrow> rgb" where
  "blend_pixel E m d s =
     (case d of (dr, dg, db) \<Rightarrow> case s of (sr, sg, sb, sa) \<Rightarrow>
        (blend E m dr sr, blend E m dg sg, blend E m db sb))"

definition paste :: "env \<Rightarrow> rgb image \<Rightarrow> rgba image \<Rightarrow> band \<Rightarrow> error + rgb image" where
  "paste E dst src msk =
     (if isize msk = isize src
      then Inr (dst\<lparr>idata :=
        map (\<lambda>i. let x = i mod fst (isize dst); y = i div fst (isize dst);
                    j = y * fst (isize src) + x
                in if x < fst (isize src) \<and> y < snd (isize src)
                   then blend_pixel E (idata msk ! j) (idata dst ! i) (idata src ! j)
                   else idata dst ! i)
            [0..<length (idata dst)]\<rparr>)
      else Inl ValueError)"

text \<open>The three anonymous functions handed to \<^verbatim>\<open>point\<close>: line 46 for the alpha band,
  lines 49 to 51 for the red, green and blue bands.\<close>

definition alpha_lut :: "int \<Rightarrow> int" where
  "alpha_lut x = (if x > 128 then 255 else 0)"

definition red_lut :: "int \<Rightarrow> int" where
  "red_lut x = (if x < 50 then fst DARK_GRAY else x)"

definition green_lut :: "int \<Rightarrow> int" where
  "green_lut x = (if x < 50 then fst (snd DARK_GRAY) else x)"

definition blue_lut :: "int \<Rightarrow> int" where
  "blue_lut x = (if x < 50 then snd (snd DARK_GRAY) else x)"

text \<open>
  Lines 41 to 53 of \<^verbatim>\<open>convert_icon\<close>, from the decoded RGBA image to the processed RGBA
  image: resize, split, threshold the alpha band, recolour the three colour bands, merge.
\<close>

definition process :: "env \<Rightarrow> rgba image \<Rightarrow> error + rgba image" where
  "process E img0 =
     (let img = resize E (ICON_SIZE, ICON_SIZE) img0;
          (r, g, b, a) = split img;
          a = point alpha_lut a;
          r = point red_lut r;
          g = point green_lut g;
          b = point blue_lut b
      in merge r g b a)"

text \<open>
  Lines 56 to 59: a magenta RGB image of the icon size, onto which the processed image is
  pasted with its own alpha band as the mask.
\<close>

definition composite :: "env \<Rightarrow> rgba image \<Rightarrow> error + rgb image" where
  "composite E img =
     (let result = new_rgb (ICON_SIZE, ICON_SIZE) MAGENTA
      in paste E result img (snd (snd (snd (split img)))))"

definition render :: "env \<Rightarrow> rgba image \<Rightarrow> error + rgb image" where
  "render E img0 =
     (case process E img0 of
        Inl e \<Rightarrow> Inl e
      | Inr img \<Rightarrow> composite E img)"

section \<open>Paths, files and the console\<close>

text \<open>
  A path is the list of its components below the root, as \<^verbatim>\<open>pathlib\<close> keeps it on a
  POSIX system. Joining a path with a string splits the string at the separator, drops
  empty components and single dots, and starts again from the root when the string
  begins with the separator.
\<close>

type_synonym path = "string list"

fun split_sep :: "string \<Rightarrow> string list" where
  "split_sep [] = [[]]"
| "split_sep (c # cs) =
     (if c = CHR ''/'' then [] # split_sep cs
      else (case split_sep cs of [] \<Rightarrow> [[c]] | s # ss \<Rightarrow> (c # s) # ss))"

definition path_parts :: "string \<Rightarrow> path" where
  "path_parts s = filter (\<lambda>c. c \<noteq> [] \<and> c \<noteq> ''.'') (split_sep s)"

definition joinpath :: "path \<Rightarrow> string \<Rightarrow> path" where
  "joinpath p s =
     (case s of [] \<Rightarrow> p
      | c # cs \<Rightarrow> if c = CHR ''/'' then path_parts s else p @ path_parts s)"

definition parent :: "path \<Rightarrow> path" where
  "parent p = butlast p"

definition str_path :: "path \<Rightarrow> string" where
  "str_path p = (case p of [] \<Rightarrow> ''/'' | c # cs \<Rightarrow> concat (map (\<lambda>c. CHR ''/'' # c) p))"

definition BASE_DIR :: "env \<Rightarrow> path" where
  "BASE_DIR E =
     joinpath (joinpath (joinpath (parent (parent (script_file E))) ''src'') ''manager'')
       ''resources''"

definition SRC_DIR :: "env \<Rightarrow> path" where
  "SRC_DIR E = joinpath (BASE_DIR E) ''material''"

definition DST_DIR :: "env \<Rightarrow> path" where
  "DST_DIR E = BASE_DIR E"

definition ICONS :: "string list" where
  "ICONS = [''new_vm'', ''edit'', ''delete'', ''start'', ''stop'', ''reboot'', ''shutdown'']"

text \<open>
  The world the script runs in: the file system, where a path names a regular file with
  its contents, a directory, or nothing; and the lines printed so far.
\<close>

datatype node = File "byte list" | Dir

record world =
  fs :: "path \<Rightarrow> node option"
  console :: "string list"

definition print :: "string \<Rightarrow> world \<Rightarrow> world" where
  "print s w = w\<lparr>console := console w @ [s]\<rparr>"

text \<open>\<^verbatim>\<open>path.exists()\<close> holds for a file and for a directory.\<close>

definition path_exists :: "world \<Rightarrow> path \<Rightarrow> bool" where
  "path_exists w p = (case fs w p of None \<Rightarrow> False | Some n \<Rightarrow> True)"

text \<open>\<^verbatim>\<open>Image.open(path).convert("RGBA")\<close>: raises on a directory and on contents that
  Pillow cannot decode.\<close>

definition open_rgba :: "env \<Rightarrow> world \<Rightarrow> path \<Rightarrow> error + rgba image" where
  "open_rgba E w p =
     (case fs w p of
        None \<Rightarrow> Inl OSError
      | Some Dir \<Rightarrow> Inl OSError
      | Some (File bs) \<Rightarrow>
          (case decode_rgba E bs of
             None \<Rightarrow> Inl DecodeError
           | Some im \<Rightarrow> Inr im))"

text \<open>
  \<^verbatim>\<open>path.mkdir(parents=True, exist_ok=True)\<close>: raises when the path or one of its
  ancestors is a regular file, and changes nothing then; otherwise the path and all its
  ancestors are directories afterwards.
\<close>

definition is_file :: "node option \<Rightarrow> bool" where
  "is_file n = (case n of Some (File bs) \<Rightarrow> True | _ \<Rightarrow> False)"

definition mkdir_parents :: "path \<Rightarrow> world \<Rightarrow> error + world" where
  "mkdir_parents p w =
     (if list_ex (\<lambda>q. is_file (fs w q)) (prefixes p) then Inl OSError
      else Inr (w\<lparr>fs := (\<lambda>q. if prefix q p then Some Dir else fs w q)\<rparr>))"

text \<open>\<^verbatim>\<open>result.save(path, "BMP")\<close>: raises when the path is a directory; otherwise the
  file holds the encoded image afterwards, whatever it held before.\<close>

definition save_bmp :: "env \<Rightarrow> rgb image \<Rightarrow> path \<Rightarrow> world \<Rightarrow> error + world" where
  "save_bmp E im p w =
     (case fs w p of
        Some Dir \<Rightarrow> Inl OSError
      | _ \<Rightarrow> Inr (w\<lparr>fs := (fs w)(p \<mapsto> File (encode_bmp E im))\<rparr>))"

section \<open>The converter and the batch driver\<close>

definition src_path :: "env \<Rightarrow> string \<Rightarrow> path" where
  "src_path E name = joinpath (SRC_DIR E) (name @ ''.png'')"

definition dst_path :: "env \<Rightarrow> string \<Rightarrow> path" where
  "dst_path E name = joinpath (DST_DIR E) (name @ ''.bmp'')"

text \<open>
  \<^verbatim>\<open>convert_icon(name)\<close>. The result is the returned boolean, or the exception that
  ended the call; the world is returned as the call left it.
\<close>

definition convert_icon :: "env \<Rightarrow> string \<Rightarrow> world \<Rightarrow> (error + bool) \<times> world" where
  "convert_icon E name w =
     (if \<not> path_exists w (src_path E name)
      then (Inr False, print (''  [SKIP] '' @ str_path (src_path E name) @ '' not found'') w)
      else (case open_rgba E w (src_path E name) of
              Inl e \<Rightarrow> (Inl e, w)
            | Inr img0 \<Rightarrow>
                (case render E img0 of
                   Inl e \<Rightarrow> (Inl e, w)
                 | Inr result \<Rightarrow>
                     (case mkdir_parents (parent (dst_path E name)) w of
                        Inl e \<Rightarrow> (Inl e, w)
                      | Inr w1 \<Rightarrow>
                          (case save_bmp E result (dst_path E name) w1 of
                             Inl e \<Rightarrow> (Inl e, w1)
                           | Inr w2 \<Rightarrow> (Inr True, print (''  [OK] '' @ name @ ''.bmp'') w2))))))"

text \<open>Python's \<^verbatim>\<open>str\<close> of an integer, for the summary line.\<close>

fun str_nat :: "nat \<Rightarrow> string" where
  "str_nat n =
     (if n < 10 then [char_of (48 + n)]
      else str_nat (n div 10) @ [char_of (48 + n mod 10)])"

definition str_int :: "int \<Rightarrow> string" where
  "str_int i = (if i < 0 then CHR ''-'' # str_nat (nat (- i)) else str_nat (nat i))"

text \<open>The loop of \<^verbatim>\<open>main\<close> over the names still to convert, with the counter.\<close>

fun convert_loop :: "env \<Rightarrow> string list \<Rightarrow> int \<Rightarrow> world \<Rightarrow> (error + int) \<times> world" where
  "convert_loop E [] success w = (Inr success, w)"
| "convert_loop E (name # names) success w =
     (case convert_icon E name w of
        (Inl e, w') \<Rightarrow> (Inl e, w')
      | (Inr ok, w') \<Rightarrow> convert_loop E names (if ok then success + 1 else success) w')"

definition main :: "env \<Rightarrow> world \<Rightarrow> (error + unit) \<times> world" where
  "main E w =
     (let w = print (''Source: '' @ str_path (SRC_DIR E)) w;
          w = print (''Output: '' @ str_path (DST_DIR E)) w;
          w = print [] w
      in (case convert_loop E ICONS 0 w of
            (Inl e, w') \<Rightarrow> (Inl e, w')
          | (Inr success, w') \<Rightarrow>
              (let w' = print [] w';
                   w' = print (''Converted '' @ str_int success @ ''/''
                               @ str_int (int (length ICONS)) @ '' icons'') w'
               in (Inr (), w'))))"

section \<open>Auxiliary definitions\<close>

text \<open>What \<^verbatim>\<open>point\<close> does to one byte, the pixels of the resized, the processed and the
  saved image in closed form, and a small environment for concrete runs: its decoder
  reads the alpha value of a two-pixel image from the first byte of the file and rejects
  the empty file, its filter takes the left pixel for the left half of the icon and the
  last pixel for the right half.\<close>

definition lut8 :: "(int \<Rightarrow> int) \<Rightarrow> byte \<Rightarrow> byte" where
  "lut8 f v = word_of_int (f (uint v))"

definition proc_pixel :: "rgba \<Rightarrow> rgba" where
  "proc_pixel p = (case p of (r, g, b, a) \<Rightarrow>
     (lut8 red_lut r, lut8 green_lut g, lut8 blue_lut b, lut8 alpha_lut a))"

definition resized_pixel :: "env \<Rightarrow> rgba image \<Rightarrow> nat \<Rightarrow> rgba" where
  "resized_pixel E img0 i =
     lanczos E (ICON_SIZE, ICON_SIZE) img0 (i mod ICON_SIZE) (i div ICON_SIZE)"

definition out_pixel :: "rgba \<Rightarrow> rgb" where
  "out_pixel p = (case p of (r, g, b, a) \<Rightarrow>
     if 128 < a
     then (if r < 50 then 60 else r, if g < 50 then 60 else g, if b < 50 then 60 else b)
     else (255, 0, 255))"

definition example_env :: env where
  "example_env =
     \<lparr>script_file = [''repo'', ''scripts'', ''convert_icons.py''],
      decode_rgba = (\<lambda>bs. case bs of [] \<Rightarrow> None
                         | v # _ \<Rightarrow> Some \<lparr>isize = (2, 1), idata = [(0, 0, 0, v), (200, 30, 50, v - 1)]\<rparr>),
      lanczos = (\<lambda>sz im x y. case idata im of [] \<Rightarrow> (0, 0, 0, 0)
                            | p # ps \<Rightarrow> if 2 * x < fst sz then p else last (p # ps)),
      mix = (\<lambda>m d s. d),
      encode_bmp = (\<lambda>im. concat (map (\<lambda>(r, g, b). [b, g, r]) (idata im)))\<rparr>"

definition example_image :: "rgba image" where
  "example_image = \<lparr>isize = (2, 1), idata = [(0, 0, 0, 255), (0, 0, 0, 0)]\<rparr>"


text \<open>The image that \<^verbatim>\<open>convert_icon\<close> saves, in closed form; the file system after
  \<^verbatim>\<open>mkdir\<close> has made a path and its ancestors directories; whether the output of an icon
  can be written (no regular file stands where a directory is needed and no directory
  stands where the output file goes); whether an icon converts without an exception; and
  the line that a conversion prints.\<close>

definition rendered :: "env \<Rightarrow> rgba image \<Rightarrow> rgb image" where
  "rendered E img0 =
     \<lparr>isize = (48, 48), idata = map (\<lambda>i. out_pixel (resized_pixel E img0 i)) [0..<2304]\<rparr>"

definition made_dirs :: "path \<Rightarrow> (path \<Rightarrow> node option) \<Rightarrow> path \<Rightarrow> node option" where
  "made_dirs p f = (\<lambda>q. if prefix q p then Some Dir else f q)"

definition can_write :: "env \<Rightarrow> world \<Rightarrow> string \<Rightarrow> bool" where
  "can_write E w name =
     (\<not> list_ex (\<lambda>q. is_file (fs w q)) (prefixes (parent (dst_path E name)))
      \<and> fs w (dst_path E name) \<noteq> Some Dir)"

definition convertible :: "env \<Rightarrow> world \<Rightarrow> string \<Rightarrow> bool" where
  "convertible E w name =
     (case fs w (src_path E name) of
        Some (File bs) \<Rightarrow>
          (case decode_rgba E bs of None \<Rightarrow> False | Some img0 \<Rightarrow> can_write E w name)
      | _ \<Rightarrow> False)"

definition status_line :: "env \<Rightarrow> world \<Rightarrow> string \<Rightarrow> string" where
  "status_line E w name =
     (if path_exists w (src_path E name) then ''  [OK] '' @ name @ ''.bmp''
      else ''  [SKIP] '' @ str_path (src_path E name) @ '' not found'')"

text \<open>The bytes of the output file as a function of the bytes of the source file.\<close>

definition output_bytes :: "env \<Rightarrow> byte list \<Rightarrow> byte list option" where
  "output_bytes E bs =
     (case decode_rgba E bs of
        None \<Rightarrow> None
      | Some img0 \<Rightarrow> (case render E img0 of Inl e \<Rightarrow> None | Inr out \<Rightarrow> Some (encode_bmp E out)))"

text \<open>
  Two relations between worlds, for one icon name. In \<open>same_outlook\<close> the second world
  shows the conversion of the name what the first shows it: the same source, the same
  obstacles to writing. In \<open>settled_for\<close> the second world moreover already holds what the
  conversion of the name leaves behind when it starts from the first.
\<close>

definition same_outlook :: "env \<Rightarrow> string \<Rightarrow> world \<Rightarrow> world \<Rightarrow> bool" where
  "same_outlook E name w v =
     (fs v (src_path E name) = fs w (src_path E name)
      \<and> (fs v (dst_path E name) = Some Dir) = (fs w (dst_path E name) = Some Dir)
      \<and> list_ex (\<lambda>q. is_file (fs v q)) (prefixes (parent (dst_path E name)))
          = list_ex (\<lambda>q. is_file (fs w q)) (prefixes (parent (dst_path E name))))"

definition settled_for :: "env \<Rightarrow> string \<Rightarrow> world \<Rightarrow> world \<Rightarrow> bool" where
  "settled_for E name w v =
     (fs v (src_path E name) = fs w (src_path E name)
      \<and> fs v (dst_path E name) = fs (snd (convert_icon E name w)) (dst_path E name)
      \<and> (\<forall>q. prefix q (parent (dst_path E name))
             \<longrightarrow> fs (snd (convert_icon E name w)) q = Some Dir \<longrightarrow> fs v q = Some Dir)
      \<and> list_ex (\<lambda>q. is_file (fs v q)) (prefixes (parent (dst_path E name)))
          = list_ex (\<lambda>q. is_file (fs w q)) (prefixes (parent (dst_path E name))))"

text \<open>Whether the conversion of a name, run on a world, returns rather than raises.\<close>

definition returns :: "env \<Rightarrow> world \<Rightarrow> string \<Rightarrow> bool" where
  "returns E w name = (case fst (convert_icon E name w) of Inl e \<Rightarrow> False | Inr r \<Rightarrow> True)"

text \<open>
  File systems for concrete runs. The bare tree holds the script and nothing else; the
  example tree also holds the resource directories. Four worlds: one with nothing but the
  script, one with valid sources for three of the seven icons, one where the output path
  of an icon with a valid source is a directory, and one where the first of three
  existing sources is an empty file.
\<close>

definition bare_tree :: "path \<Rightarrow> node option" where
  "bare_tree =
     [[] \<mapsto> Dir,
      [''repo''] \<mapsto> Dir,
      [''repo'', ''scripts''] \<mapsto> Dir,
      [''repo'', ''scripts'', ''convert_icons.py''] \<mapsto> File [35, 33]]"

definition example_tree :: "path \<Rightarrow> node option" where
  "example_tree =
     bare_tree
      ([''repo'', ''src''] \<mapsto> Dir,
       [''repo'', ''src'', ''manager''] \<mapsto> Dir,
       [''repo'', ''src'', ''manager'', ''resources''] \<mapsto> Dir,
       [''repo'', ''src'', ''manager'', ''resources'', ''material''] \<mapsto> Dir)"

definition bare_world :: world where
  "bare_world = \<lparr>fs = bare_tree, console = []\<rparr>"

definition example_world :: world where
  "example_world =
     \<lparr>fs = example_tree
        ([''repo'', ''src'', ''manager'', ''resources'', ''material'', ''edit.png'']
           \<mapsto> File [255],
         [''repo'', ''src'', ''manager'', ''resources'', ''material'', ''stop.png'']
           \<mapsto> File [200],
         [''repo'', ''src'', ''manager'', ''resources'', ''material'', ''reboot.png'']
           \<mapsto> File [7]),
      console = []\<rparr>"

definition blocked_world :: world where
  "blocked_world =
     \<lparr>fs = example_tree
        ([''repo'', ''src'', ''manager'', ''resources'', ''material'', ''edit.png'']
           \<mapsto> File [255],
         [''repo'', ''src'', ''manager'', ''resources'', ''edit.bmp''] \<mapsto> Dir),
      console = []\<rparr>"

definition corrupt_world :: world where
  "corrupt_world =
     \<lparr>fs = example_tree
        ([''repo'', ''src'', ''manager'', ''resources'', ''material'', ''new_vm.png'']
           \<mapsto> File [],
         [''repo'', ''src'', ''manager'', ''resources'', ''material'', ''edit.png'']
           \<mapsto> File [255],
         [''repo'', ''src'', ''manager'', ''resources'', ''material'', ''stop.png'']
           \<mapsto> File [200]),
      console = []\<rparr>"

section \<open>The image pipeline\<close>

lemma zip4_map:
  "zip (map f1 xs) (zip (map f2 xs) (zip (map f3 xs) (map f4 xs)))
     = map (\<lambda>x. (f1 x, f2 x, f3 x, f4 x)) xs"
  by (induction xs) simp_all

lemma div48: "i < 2304 \<Longrightarrow> i div 48 < (48::nat)"
  by simp

lemma lut8_alpha: "lut8 alpha_lut a = (if 128 < a then 255 else 0)"
  by (simp add: lut8_def alpha_lut_def word_less_def)

lemma lut8_red: "lut8 red_lut v = (if v < 50 then 60 else v)"
  by (simp add: lut8_def red_lut_def DARK_GRAY_def word_less_def)

lemma lut8_green: "lut8 green_lut v = (if v < 50 then 60 else v)"
  by (simp add: lut8_def green_lut_def DARK_GRAY_def word_less_def)

lemma lut8_blue: "lut8 blue_lut v = (if v < 50 then 60 else v)"
  by (simp add: lut8_def blue_lut_def DARK_GRAY_def word_less_def)

lemma point_data: "idata (point f b) = map (lut8 f) (idata b)"
  by (simp add: point_def lut8_def)

lemma point_size: "isize (point f b) = isize b"
  by (simp add: point_def)

lemma resize_eq:
  "resize E (ICON_SIZE, ICON_SIZE) img0 =
     \<lparr>isize = (48, 48), idata = map (resized_pixel E img0) [0..<2304]\<rparr>"
  by (simp add: resize_def ICON_SIZE_def resized_pixel_def)

lemma process_eq:
  "process E img0 =
     Inr \<lparr>isize = (48, 48), idata = map (\<lambda>i. proc_pixel (resized_pixel E img0 i)) [0..<2304]\<rparr>"
  unfolding process_def resize_eq
  by (simp add: Let_def split_def point_def merge_def zip4_map comp_def
      lut8_def[symmetric] proc_pixel_def case_prod_unfold)

lemma composite_eq:
  "composite E \<lparr>isize = (48, 48), idata = map f [0..<2304]\<rparr> =
     Inr \<lparr>isize = (48, 48),
          idata = map (\<lambda>i. blend_pixel E (snd (snd (snd (f i)))) (255, 0, 255) (f i)) [0..<2304]\<rparr>"
  unfolding composite_def
  by (simp add: Let_def split_def ICON_SIZE_def new_rgb_def paste_def
      MAGENTA_def div48 case_prod_unfold)

lemma blend_pixel_proc:
  "blend_pixel E (snd (snd (snd (proc_pixel (r, g, b, a))))) (255, 0, 255) (proc_pixel (r, g, b, a)) =
     (if 128 < a then (if r < 50 then 60 else r, if g < 50 then 60 else g, if b < 50 then 60 else b)
      else (255, 0, 255))"
  by (simp add: proc_pixel_def blend_pixel_def blend_def lut8_alpha lut8_red lut8_green lut8_blue)

text \<open>
  Claim C3. The alpha threshold sends every alpha value above 128 to 255 and every other
  value to 0: 128 becomes 0 and 129 becomes 255, and the alpha band of the processed image
  is the thresholded alpha band of the resized image.
\<close>

theorem alpha_threshold_step:
  "point alpha_lut \<lparr>isize = (2, 1), idata = [128, 129]\<rparr> = \<lparr>isize = (2, 1), idata = [0, 255]\<rparr>
   \<and> isize (point alpha_lut a) = isize a
   \<and> idata (point alpha_lut a) = map (\<lambda>v. if 128 < v then 255 else 0) (idata a)
   \<and> (\<exists>img. process E img0 = Inr img
        \<and> idata (snd (snd (snd (split img)))) =
            map (\<lambda>v. if 128 < v then 255 else 0)
              (idata (snd (snd (snd (split (resize E (ICON_SIZE, ICON_SIZE) img0)))))))"
proof -
  have 1: "point alpha_lut \<lparr>isize = (2, 1), idata = [128, 129]\<rparr> = \<lparr>isize = (2, 1), idata = [0, 255]\<rparr>"
    by (simp add: point_def alpha_lut_def)
  have 2: "idata (point alpha_lut a) = map (\<lambda>v. if 128 < v then 255 else 0) (idata a)"
    by (simp add: point_data lut8_alpha cong: map_cong)
  have 3: "\<exists>img. process E img0 = Inr img
        \<and> idata (snd (snd (snd (split img)))) =
            map (\<lambda>v. if 128 < v then 255 else 0)
              (idata (snd (snd (snd (split (resize E (ICON_SIZE, ICON_SIZE) img0))))))"
    unfolding process_eq resize_eq
    by (simp add: split_def proc_pixel_def lut8_alpha case_prod_unfold comp_def)
  from 1 2 3 show ?thesis by (simp add: point_size)
qed

lemma render_eq:
  "render E img0 =
     Inr \<lparr>isize = (48, 48), idata = map (\<lambda>i. out_pixel (resized_pixel E img0 i)) [0..<2304]\<rparr>"
  unfolding render_def process_eq
  by (simp add: composite_eq out_pixel_def blend_pixel_proc split: prod.split)

lemma resized_pixel_at:
  "x < 48 \<Longrightarrow> resized_pixel E img0 (y * 48 + x) = lanczos E (ICON_SIZE, ICON_SIZE) img0 x y"
  by (simp add: resized_pixel_def ICON_SIZE_def)

lemma getpixel_map:
  "x < 48 \<Longrightarrow> y < 48 \<Longrightarrow>
     getpixel \<lparr>isize = (48, 48), idata = map f [0..<2304]\<rparr> (x, y) = Some (f (y * 48 + x))"
proof -
  assume "x < 48" "y < 48"
  then have "y * 48 + x < 2304" by simp
  with \<open>x < 48\<close> \<open>y < 48\<close> show ?thesis
    by (simp add: getpixel_def)
qed

text \<open>
  Claim C4. Each of the three colour bands is recoloured on its own: a value below 50
  becomes 60, a value of 50 or more stays; 49 becomes 60 and 50 stays 50. The colour bands
  of the processed image are the recoloured bands of the resized image.
\<close>

theorem recolor_step:
  "point red_lut \<lparr>isize = (2, 1), idata = [49, 50]\<rparr> = \<lparr>isize = (2, 1), idata = [60, 50]\<rparr>
   \<and> point green_lut \<lparr>isize = (2, 1), idata = [49, 50]\<rparr> = \<lparr>isize = (2, 1), idata = [60, 50]\<rparr>
   \<and> point blue_lut \<lparr>isize = (2, 1), idata = [49, 50]\<rparr> = \<lparr>isize = (2, 1), idata = [60, 50]\<rparr>
   \<and> idata (point red_lut c) = map (\<lambda>v. if v < 50 then 60 else v) (idata c)
   \<and> idata (point green_lut c) = map (\<lambda>v. if v < 50 then 60 else v) (idata c)
   \<and> idata (point blue_lut c) = map (\<lambda>v. if v < 50 then 60 else v) (idata c)
   \<and> (\<exists>img. process E img0 = Inr img
        \<and> idata (fst (split img)) =
            map (\<lambda>v. if v < 50 then 60 else v)
              (idata (fst (split (resize E (ICON_SIZE, ICON_SIZE) img0))))
        \<and> idata (fst (snd (split img))) =
            map (\<lambda>v. if v < 50 then 60 else v)
              (idata (fst (snd (split (resize E (ICON_SIZE, ICON_SIZE) img0)))))
        \<and> idata (fst (snd (snd (split img)))) =
            map (\<lambda>v. if v < 50 then 60 else v)
              (idata (fst (snd (snd (split (resize E (ICON_SIZE, ICON_SIZE) img0)))))))"
proof -
  have 1: "point red_lut \<lparr>isize = (2, 1), idata = [49, 50]\<rparr> = \<lparr>isize = (2, 1), idata = [60, 50]\<rparr>"
    by (simp add: point_def red_lut_def DARK_GRAY_def)
  have 2: "point green_lut \<lparr>isize = (2, 1), idata = [49, 50]\<rparr> = \<lparr>isize = (2, 1), idata = [60, 50]\<rparr>"
    by (simp add: point_def green_lut_def DARK_GRAY_def)
  have 3: "point blue_lut \<lparr>isize = (2, 1), idata = [49, 50]\<rparr> = \<lparr>isize = (2, 1), idata = [60, 50]\<rparr>"
    by (simp add: point_def blue_lut_def DARK_GRAY_def)
  have 4: "idata (point red_lut c) = map (\<lambda>v. if v < 50 then 60 else v) (idata c)"
    by (simp add: point_data lut8_red cong: map_cong)
  have 5: "idata (point green_lut c) = map (\<lambda>v. if v < 50 then 60 else v) (idata c)"
    by (simp add: point_data lut8_green cong: map_cong)
  have 6: "idata (point blue_lut c) = map (\<lambda>v. if v < 50 then 60 else v) (idata c)"
    by (simp add: point_data lut8_blue cong: map_cong)
  have 7: "\<exists>img. process E img0 = Inr img
        \<and> idata (fst (split img)) =
            map (\<lambda>v. if v < 50 then 60 else v)
              (idata (fst (split (resize E (ICON_SIZE, ICON_SIZE) img0))))
        \<and> idata (fst (snd (split img))) =
            map (\<lambda>v. if v < 50 then 60 else v)
              (idata (fst (snd (split (resize E (ICON_SIZE, ICON_SIZE) img0)))))
        \<and> idata (fst (snd (snd (split img)))) =
            map (\<lambda>v. if v < 50 then 60 else v)
              (idata (fst (snd (snd (split (resize E (ICON_SIZE, ICON_SIZE) img0))))))"
    unfolding process_eq resize_eq
    by (simp add: split_def proc_pixel_def lut8_red lut8_green lut8_blue
        case_prod_unfold comp_def)
  from 1 2 3 4 5 6 7 show ?thesis by blast
qed

text \<open>
  Claim C5. At every pixel of the icon the alpha value of the processed image is 255 or 0;
  where it is 255 the saved image has the processed colour, where it is 0 it has magenta.
  A pixel that the resize leaves opaque black is saved as (60, 60, 60), one that it leaves
  fully transparent as magenta.
\<close>

theorem composite_pixel:
  assumes "x < ICON_SIZE" and "y < ICON_SIZE"
  shows "\<exists>img out r g b a.
           process E img0 = Inr img \<and> render E img0 = Inr out
         \<and> getpixel img (x, y) = Some (r, g, b, a)
         \<and> (a = 255 \<or> a = 0)
         \<and> getpixel out (x, y) = Some (if a = 255 then (r, g, b) else (255, 0, 255))
         \<and> (lanczos E (ICON_SIZE, ICON_SIZE) img0 x y = (0, 0, 0, 255)
              \<longrightarrow> getpixel out (x, y) = Some (60, 60, 60))
         \<and> (snd (snd (snd (lanczos E (ICON_SIZE, ICON_SIZE) img0 x y))) = 0
              \<longrightarrow> getpixel out (x, y) = Some (255, 0, 255))"
proof -
  from assms have xy: "x < 48" "y < 48" by (simp_all add: ICON_SIZE_def)
  obtain r g b a where p: "lanczos E (ICON_SIZE, ICON_SIZE) img0 x y = (r, g, b, a)"
    by (cases "lanczos E (ICON_SIZE, ICON_SIZE) img0 x y") auto
  show ?thesis
    unfolding process_eq render_eq
    using xy p
    by (simp add: getpixel_map resized_pixel_at proc_pixel_def out_pixel_def
        lut8_alpha lut8_red lut8_green lut8_blue)
qed

theorem composite_pixel_witness:
  "(0::nat) < ICON_SIZE \<and> (47::nat) < ICON_SIZE
   \<and> lanczos example_env (ICON_SIZE, ICON_SIZE) example_image 0 0 = (0, 0, 0, 255)
   \<and> snd (snd (snd (lanczos example_env (ICON_SIZE, ICON_SIZE) example_image 47 0))) = 0
   \<and> (\<exists>out. render example_env example_image = Inr out
         \<and> getpixel out (0, 0) = Some (60, 60, 60)
         \<and> getpixel out (47, 0) = Some (255, 0, 255))"
  using composite_pixel [of 0 0 example_env example_image]
    composite_pixel [of 47 0 example_env example_image]
  by (auto simp: ICON_SIZE_def example_env_def example_image_def)

text \<open>
  Claim C10. Every pixel of the saved image is magenta or has all three channels at 50 or
  above.
\<close>

theorem output_pixel_range:
  assumes "x < ICON_SIZE" and "y < ICON_SIZE"
  shows "\<exists>out r g b. render E img0 = Inr out \<and> getpixel out (x, y) = Some (r, g, b)
           \<and> ((r, g, b) = (255, 0, 255) \<or> (50 \<le> r \<and> 50 \<le> g \<and> 50 \<le> b))"
proof -
  from assms have xy: "x < 48" "y < 48" by (simp_all add: ICON_SIZE_def)
  obtain r g b a where p: "resized_pixel E img0 (y * 48 + x) = (r, g, b, a)"
    by (cases "resized_pixel E img0 (y * 48 + x)") auto
  show ?thesis
    unfolding render_eq
    using xy p
    by (auto simp: getpixel_map out_pixel_def not_less)
qed

theorem output_pixel_range_witness:
  "(0::nat) < ICON_SIZE \<and> (0::nat) < ICON_SIZE
   \<and> (\<exists>out r g b. render example_env example_image = Inr out
         \<and> getpixel out (0, 0) = Some (r, g, b)
         \<and> ((r, g, b) = (255, 0, 255) \<or> (50 \<le> r \<and> 50 \<le> g \<and> 50 \<le> b)))"
  using output_pixel_range [of 0 0 example_env example_image]
  by (simp add: ICON_SIZE_def)


section \<open>One conversion\<close>

lemma base_dir_eq:
  "BASE_DIR E = butlast (butlast (script_file E)) @ [''src'', ''manager'', ''resources'']"
  by (simp add: BASE_DIR_def joinpath_def path_parts_def parent_def)

lemma icon_src_path:
  "name \<in> set ICONS \<Longrightarrow> src_path E name = BASE_DIR E @ [''material'', name @ ''.png'']"
  by (auto simp: ICONS_def src_path_def SRC_DIR_def joinpath_def path_parts_def)

lemma icon_dst_path:
  "name \<in> set ICONS \<Longrightarrow> dst_path E name = BASE_DIR E @ [name @ ''.bmp'']"
  by (auto simp: ICONS_def dst_path_def DST_DIR_def joinpath_def path_parts_def)

lemma split_sep_plain: "CHR ''/'' \<notin> set t \<Longrightarrow> split_sep t = [t]"
  by (induction t) auto

lemma split_sep_nonempty: "split_sep s \<noteq> []"
  by (induction s) (auto split: list.splits)

lemma split_sep_append:
  "CHR ''/'' \<notin> set t \<Longrightarrow>
     split_sep (s @ t) = butlast (split_sep s) @ [last (split_sep s) @ t]"
proof (induction s)
  case Nil
  then show ?case by (simp add: split_sep_plain)
next
  case (Cons c s)
  obtain x xs where x: "split_sep s = x # xs"
    using split_sep_nonempty [of s] by (cases "split_sep s") auto
  show ?case
  proof (cases "xs = []")
    case True
    with Cons x show ?thesis by simp
  next
    case False
    with Cons x show ?thesis by simp
  qed
qed

lemma last_split_sep:
  "CHR ''/'' \<notin> set t \<Longrightarrow> last (split_sep (s @ t)) = last (split_sep s) @ t"
  by (simp add: split_sep_append)

lemma dst_path_nonempty: "dst_path E name \<noteq> []"
proof -
  let ?s = "name @ ''.bmp''"
  have l: "last (split_sep ?s) = last (split_sep name) @ ''.bmp''"
    by (rule last_split_sep) simp
  have "last (split_sep ?s) \<in> set (split_sep ?s)"
    using split_sep_nonempty by simp
  moreover have "last (split_sep ?s) \<noteq> []" "last (split_sep ?s) \<noteq> ''.''"
    using l by auto
  ultimately have "path_parts ?s \<noteq> []"
    by (auto simp: path_parts_def filter_empty_conv)
  then show ?thesis
    by (cases name) (auto simp: dst_path_def joinpath_def)
qed

lemma render_rendered: "render E img0 = Inr (rendered E img0)"
  by (simp add: render_eq rendered_def)

lemma not_prefix_butlast: "p \<noteq> [] \<Longrightarrow> \<not> prefix p (butlast p)"
  by (cases p rule: rev_cases) (auto dest: prefix_length_le)

lemma convert_icon_skip:
  "fs w (src_path E name) = None \<Longrightarrow>
     convert_icon E name w =
       (Inr False, print (''  [SKIP] '' @ str_path (src_path E name) @ '' not found'') w)"
  by (simp add: convert_icon_def path_exists_def)

lemma convert_icon_src_dir:
  "fs w (src_path E name) = Some Dir \<Longrightarrow> convert_icon E name w = (Inl OSError, w)"
  by (simp add: convert_icon_def path_exists_def open_rgba_def)

lemma convert_icon_undecodable:
  "fs w (src_path E name) = Some (File bs) \<Longrightarrow> decode_rgba E bs = None \<Longrightarrow>
     convert_icon E name w = (Inl DecodeError, w)"
  by (simp add: convert_icon_def path_exists_def open_rgba_def)

lemma convert_icon_mkdir_fails:
  "fs w (src_path E name) = Some (File bs) \<Longrightarrow> decode_rgba E bs = Some img0 \<Longrightarrow>
   list_ex (\<lambda>q. is_file (fs w q)) (prefixes (parent (dst_path E name))) \<Longrightarrow>
     convert_icon E name w = (Inl OSError, w)"
  by (simp add: convert_icon_def path_exists_def open_rgba_def render_rendered mkdir_parents_def)

lemma convert_icon_save_fails:
  "fs w (src_path E name) = Some (File bs) \<Longrightarrow> decode_rgba E bs = Some img0 \<Longrightarrow>
   \<not> list_ex (\<lambda>q. is_file (fs w q)) (prefixes (parent (dst_path E name))) \<Longrightarrow>
   fs w (dst_path E name) = Some Dir \<Longrightarrow>
     convert_icon E name w =
       (Inl OSError, w\<lparr>fs := made_dirs (parent (dst_path E name)) (fs w)\<rparr>)"
  by (simp add: convert_icon_def path_exists_def open_rgba_def render_rendered mkdir_parents_def
      save_bmp_def made_dirs_def)

lemma convert_icon_ok:
  assumes "fs w (src_path E name) = Some (File bs)" and "decode_rgba E bs = Some img0"
    and "can_write E w name"
  shows "convert_icon E name w =
       (Inr True, print (''  [OK] '' @ name @ ''.bmp'')
          (w\<lparr>fs := (made_dirs (parent (dst_path E name)) (fs w))
                      (dst_path E name \<mapsto> File (encode_bmp E (rendered E img0)))\<rparr>))"
proof -
  have "\<not> prefix (dst_path E name) (parent (dst_path E name))"
    unfolding parent_def by (rule not_prefix_butlast) (rule dst_path_nonempty)
  with assms show ?thesis
    by (simp add: convert_icon_def path_exists_def open_rgba_def render_rendered
        mkdir_parents_def save_bmp_def made_dirs_def can_write_def split: option.split node.split)
qed

lemma convert_icon_cases:
  obtains
    (skip) "fs w (src_path E name) = None"
  | (src_dir) "fs w (src_path E name) = Some Dir"
  | (undecodable) bs where "fs w (src_path E name) = Some (File bs)" "decode_rgba E bs = None"
  | (mkdir_fails) bs img0 where "fs w (src_path E name) = Some (File bs)"
      "decode_rgba E bs = Some img0"
      "list_ex (\<lambda>q. is_file (fs w q)) (prefixes (parent (dst_path E name)))"
  | (save_fails) bs img0 where "fs w (src_path E name) = Some (File bs)"
      "decode_rgba E bs = Some img0"
      "\<not> list_ex (\<lambda>q. is_file (fs w q)) (prefixes (parent (dst_path E name)))"
      "fs w (dst_path E name) = Some Dir"
  | (ok) bs img0 where "fs w (src_path E name) = Some (File bs)"
      "decode_rgba E bs = Some img0" "can_write E w name"
proof (cases "fs w (src_path E name)")
  case None
  then show ?thesis by (rule skip)
next
  case (Some n)
  show ?thesis
  proof (cases n)
    case Dir
    with Some show ?thesis by (simp add: src_dir)
  next
    case (File bs)
    with Some have f: "fs w (src_path E name) = Some (File bs)" by simp
    show ?thesis
    proof (cases "decode_rgba E bs")
      case None
      with f show ?thesis by (rule undecodable)
    next
      case (Some img0)
      show ?thesis
      proof (cases "list_ex (\<lambda>q. is_file (fs w q)) (prefixes (parent (dst_path E name)))")
        case True
        with f Some show ?thesis by (rule mkdir_fails)
      next
        case False
        show ?thesis
        proof (cases "fs w (dst_path E name) = Some Dir")
          case True
          with f Some False show ?thesis by (rule save_fails)
        next
          case nd: False
          with False have "can_write E w name" by (simp add: can_write_def)
          with f Some show ?thesis by (rule ok)
        qed
      qed
    qed
  qed
qed

lemma convert_icon_true:
  "fst (convert_icon E name w) = Inr True \<Longrightarrow>
     \<exists>bs img0. fs w (src_path E name) = Some (File bs) \<and> decode_rgba E bs = Some img0
        \<and> can_write E w name"
  apply (rule convert_icon_cases [of w E name])
       apply (simp_all add: convert_icon_skip convert_icon_src_dir convert_icon_undecodable
        convert_icon_mkdir_fails convert_icon_save_fails)
  done

lemma rendered_size:
  "isize (rendered E img0) = (ICON_SIZE, ICON_SIZE)"
  "length (idata (rendered E img0)) = ICON_SIZE * ICON_SIZE"
  by (simp_all add: rendered_def ICON_SIZE_def)

text \<open>
  Claim C1. When nothing exists at the source path of a name, \<^verbatim>\<open>convert_icon\<close> returns
  false without an exception, prints the skip notice, and leaves the output path and the
  set of existing paths as they were.
\<close>

theorem absent_source_skipped:
  assumes "\<not> path_exists w (src_path E name)"
  shows "fst (convert_icon E name w) = Inr False
       \<and> console (snd (convert_icon E name w)) =
           console w @ [''  [SKIP] '' @ str_path (src_path E name) @ '' not found'']
       \<and> fs (snd (convert_icon E name w)) (dst_path E name) = fs w (dst_path E name)
       \<and> dom (fs (snd (convert_icon E name w))) = dom (fs w)"
proof -
  from assms have "fs w (src_path E name) = None"
    by (simp add: path_exists_def split: option.splits)
  then show ?thesis
    by (simp add: convert_icon_skip print_def)
qed

theorem absent_source_skipped_witness:
  "\<not> path_exists example_world (src_path example_env ''delete'')
   \<and> fst (convert_icon example_env ''delete'' example_world) = Inr False
   \<and> console (snd (convert_icon example_env ''delete'' example_world)) =
       [''  [SKIP] /repo/src/manager/resources/material/delete.png not found'']"
proof -
  have h: "\<not> path_exists example_world (src_path example_env ''delete'')"
    by (simp add: path_exists_def example_world_def example_tree_def bare_tree_def example_env_def src_path_def SRC_DIR_def
        BASE_DIR_def joinpath_def path_parts_def parent_def)
  have p: "str_path (src_path example_env ''delete'') =
      ''/repo/src/manager/resources/material/delete.png''"
    by (simp add: str_path_def example_env_def src_path_def SRC_DIR_def
        BASE_DIR_def joinpath_def path_parts_def parent_def)
  from absent_source_skipped [OF h] h p show ?thesis
    by (simp add: example_world_def example_tree_def bare_tree_def)
qed

text \<open>
  Claim C9. When nothing exists at the source path, the file system after the call is the
  file system before it; the destination directory in particular is what it was.
\<close>

theorem absent_source_no_change:
  assumes "\<not> path_exists w (src_path E name)"
  shows "fs (snd (convert_icon E name w)) = fs w
       \<and> fs (snd (convert_icon E name w)) (parent (dst_path E name)) =
           fs w (parent (dst_path E name))"
proof -
  from assms have "fs w (src_path E name) = None"
    by (simp add: path_exists_def split: option.splits)
  then show ?thesis
    by (simp add: convert_icon_skip print_def)
qed

theorem absent_source_no_change_witness:
  "\<not> path_exists bare_world (src_path example_env ''edit'')
   \<and> fs (snd (convert_icon example_env ''edit'' bare_world)) = fs bare_world
   \<and> fs (snd (convert_icon example_env ''edit'' bare_world))
       (parent (dst_path example_env ''edit'')) = None"
proof -
  have h: "\<not> path_exists bare_world (src_path example_env ''edit'')"
    by (simp add: path_exists_def bare_world_def bare_tree_def example_env_def src_path_def
        SRC_DIR_def BASE_DIR_def joinpath_def path_parts_def parent_def)
  have p: "fs bare_world (parent (dst_path example_env ''edit'')) = None"
    by (simp add: bare_world_def bare_tree_def example_env_def dst_path_def DST_DIR_def
        BASE_DIR_def joinpath_def path_parts_def parent_def)
  from absent_source_no_change [OF h] h p show ?thesis
    by simp
qed

text \<open>
  Claim C2, amended. When the source is a regular file that decodes and the output can be
  written, \<^verbatim>\<open>convert_icon\<close> returns true and the output file holds the encoding of the
  rendered image. Whenever \<^verbatim>\<open>convert_icon\<close> returns true, the output file holds the
  encoding of an RGB image of 48 by 48 pixels.
\<close>

theorem valid_source_converted:
  "(fs w (src_path E name) = Some (File bs) \<and> decode_rgba E bs = Some img0
      \<and> can_write E w name
    \<longrightarrow> (\<exists>out. render E img0 = Inr out
          \<and> isize out = (ICON_SIZE, ICON_SIZE)
          \<and> length (idata out) = ICON_SIZE * ICON_SIZE
          \<and> fst (convert_icon E name w) = Inr True
          \<and> fs (snd (convert_icon E name w)) (dst_path E name) =
              Some (File (encode_bmp E out))))
   \<and> (fst (convert_icon E name w) = Inr True
    \<longrightarrow> (\<exists>bs' img' out. fs w (src_path E name) = Some (File bs')
          \<and> decode_rgba E bs' = Some img'
          \<and> render E img' = Inr out
          \<and> isize out = (ICON_SIZE, ICON_SIZE)
          \<and> length (idata out) = ICON_SIZE * ICON_SIZE
          \<and> fs (snd (convert_icon E name w)) (dst_path E name) =
              Some (File (encode_bmp E out))))"
proof (intro conjI impI)
  assume a: "fs w (src_path E name) = Some (File bs) \<and> decode_rgba E bs = Some img0
      \<and> can_write E w name"
  then have "fst (convert_icon E name w) = Inr True"
    and "fs (snd (convert_icon E name w)) (dst_path E name) =
          Some (File (encode_bmp E (rendered E img0)))"
    by (simp_all add: convert_icon_ok print_def)
  then show "\<exists>out. render E img0 = Inr out
          \<and> isize out = (ICON_SIZE, ICON_SIZE)
          \<and> length (idata out) = ICON_SIZE * ICON_SIZE
          \<and> fst (convert_icon E name w) = Inr True
          \<and> fs (snd (convert_icon E name w)) (dst_path E name) =
              Some (File (encode_bmp E out))"
    using render_rendered rendered_size by blast
next
  assume "fst (convert_icon E name w) = Inr True"
  then obtain bs' img' where s: "fs w (src_path E name) = Some (File bs')"
      "decode_rgba E bs' = Some img'" "can_write E w name"
    using convert_icon_true by blast
  then have "fs (snd (convert_icon E name w)) (dst_path E name) =
          Some (File (encode_bmp E (rendered E img')))"
    by (simp add: convert_icon_ok print_def)
  with s show "\<exists>bs' img' out. fs w (src_path E name) = Some (File bs')
          \<and> decode_rgba E bs' = Some img'
          \<and> render E img' = Inr out
          \<and> isize out = (ICON_SIZE, ICON_SIZE)
          \<and> length (idata out) = ICON_SIZE * ICON_SIZE
          \<and> fs (snd (convert_icon E name w)) (dst_path E name) =
              Some (File (encode_bmp E out))"
    using render_rendered rendered_size by blast
qed

lemma example_paths:
  "src_path example_env ''edit'' =
     [''repo'', ''src'', ''manager'', ''resources'', ''material'', ''edit.png'']"
  "dst_path example_env ''edit'' = [''repo'', ''src'', ''manager'', ''resources'', ''edit.bmp'']"
  by (simp_all add: example_env_def src_path_def dst_path_def SRC_DIR_def DST_DIR_def
        BASE_DIR_def joinpath_def path_parts_def parent_def)

theorem valid_source_converted_witness:
  "fs example_world (src_path example_env ''edit'') = Some (File [255])
   \<and> decode_rgba example_env [255] =
       Some \<lparr>isize = (2, 1), idata = [(0, 0, 0, 255), (200, 30, 50, 254)]\<rparr>
   \<and> can_write example_env example_world ''edit''
   \<and> fst (convert_icon example_env ''edit'' example_world) = Inr True
   \<and> (\<exists>out. render example_env
                \<lparr>isize = (2, 1), idata = [(0, 0, 0, 255), (200, 30, 50, 254)]\<rparr> = Inr out
          \<and> isize out = (ICON_SIZE, ICON_SIZE)
          \<and> length (idata out) = ICON_SIZE * ICON_SIZE
          \<and> fs (snd (convert_icon example_env ''edit'' example_world))
               (dst_path example_env ''edit'') = Some (File (encode_bmp example_env out)))"
proof -
  have 1: "fs example_world (src_path example_env ''edit'') = Some (File [255])"
    by (simp add: example_paths example_world_def example_tree_def bare_tree_def)
  have 2: "decode_rgba example_env [255] =
       Some \<lparr>isize = (2, 1), idata = [(0, 0, 0, 255), (200, 30, 50, 254)]\<rparr>"
    by (simp add: example_env_def)
  have 3: "can_write example_env example_world ''edit''"
    by (simp add: can_write_def example_paths parent_def example_world_def example_tree_def
        bare_tree_def is_file_def)
  note t = valid_source_converted [of example_world example_env "''edit''" "[255]"
      "\<lparr>isize = (2, 1), idata = [(0, 0, 0, 255), (200, 30, 50, 254)]\<rparr>"]
  from t 1 2 3 have 4: "\<exists>out. render example_env
                \<lparr>isize = (2, 1), idata = [(0, 0, 0, 255), (200, 30, 50, 254)]\<rparr> = Inr out
          \<and> isize out = (ICON_SIZE, ICON_SIZE)
          \<and> length (idata out) = ICON_SIZE * ICON_SIZE
          \<and> fst (convert_icon example_env ''edit'' example_world) = Inr True
          \<and> fs (snd (convert_icon example_env ''edit'' example_world))
               (dst_path example_env ''edit'') = Some (File (encode_bmp example_env out))"
    by blast
  from 1 2 3 4 show ?thesis by blast
qed

text \<open>
  Claim C2 as stated fails: with a valid source and a directory at the output path,
  \<^verbatim>\<open>save\<close> raises, the call does not return true and no file is written.
\<close>

theorem valid_source_blocked_output:
  "fs blocked_world (src_path example_env ''edit'') = Some (File [255])
   \<and> decode_rgba example_env [255] =
       Some \<lparr>isize = (2, 1), idata = [(0, 0, 0, 255), (200, 30, 50, 254)]\<rparr>
   \<and> fst (convert_icon example_env ''edit'' blocked_world) = Inl OSError
   \<and> fs (snd (convert_icon example_env ''edit'' blocked_world)) (dst_path example_env ''edit'')
       = Some Dir"
proof -
  have 1: "fs blocked_world (src_path example_env ''edit'') = Some (File [255])"
    by (simp add: example_paths blocked_world_def example_tree_def bare_tree_def)
  have 2: "decode_rgba example_env [255] =
       Some \<lparr>isize = (2, 1), idata = [(0, 0, 0, 255), (200, 30, 50, 254)]\<rparr>"
    by (simp add: example_env_def)
  have 3: "\<not> list_ex (\<lambda>q. is_file (fs blocked_world q))
             (prefixes (parent (dst_path example_env ''edit'')))"
    by (simp add: example_paths parent_def blocked_world_def example_tree_def bare_tree_def is_file_def)
  have 4: "fs blocked_world (dst_path example_env ''edit'') = Some Dir"
    by (simp add: example_paths blocked_world_def example_tree_def bare_tree_def)
  have r: "convert_icon example_env ''edit'' blocked_world =
      (Inl OSError,
       blocked_world\<lparr>fs := made_dirs (parent (dst_path example_env ''edit''))
                                (fs blocked_world)\<rparr>)"
    by (rule convert_icon_save_fails [OF 1 2 3 4])
  have 5: "fst (convert_icon example_env ''edit'' blocked_world) = Inl OSError"
    by (simp add: r)
  have 6: "fs (snd (convert_icon example_env ''edit'' blocked_world))
      (dst_path example_env ''edit'') = Some Dir"
    by (simp add: r made_dirs_def 4)
  from 1 2 5 6 show ?thesis by blast
qed


section \<open>Independence of the icons\<close>

lemma no_file_prefix:
  "\<not> list_ex (\<lambda>q. is_file (fs w q)) (prefixes p) \<Longrightarrow> prefix q p \<Longrightarrow> \<not> is_file (fs w q)"
  by (auto simp: list_ex_iff in_set_prefixes)

lemma is_file_simps:
  "is_file None = False" "is_file (Some Dir) = False" "is_file (Some (File bs)) = True"
  by (simp_all add: is_file_def)

lemma made_dirs_files:
  assumes "\<not> list_ex (\<lambda>q. is_file (fs w q)) (prefixes p)"
  shows "is_file (made_dirs p (fs w) q) = is_file (fs w q)"
proof (cases "prefix q p")
  case True
  with assms have "\<not> is_file (fs w q)" by (rule no_file_prefix)
  with True show ?thesis by (simp add: made_dirs_def is_file_simps)
next
  case False
  then show ?thesis by (simp add: made_dirs_def)
qed

text \<open>What one conversion can change.\<close>

lemma convert_icon_elsewhere:
  "q \<noteq> dst_path E name \<Longrightarrow> \<not> prefix q (parent (dst_path E name)) \<Longrightarrow>
     fs (snd (convert_icon E name w)) q = fs w q"
  by (rule convert_icon_cases [of w E name])
     (simp_all add: convert_icon_skip convert_icon_src_dir convert_icon_undecodable
        convert_icon_mkdir_fails convert_icon_save_fails convert_icon_ok print_def made_dirs_def)

lemma convert_icon_files:
  "q \<noteq> dst_path E name \<Longrightarrow>
     is_file (fs (snd (convert_icon E name w)) q) = is_file (fs w q)"
  by (rule convert_icon_cases [of w E name])
     (simp_all add: convert_icon_skip convert_icon_src_dir convert_icon_undecodable
        convert_icon_mkdir_fails convert_icon_save_fails convert_icon_ok print_def
        made_dirs_files can_write_def)

lemma convert_icon_keeps_dirs:
  "q \<noteq> dst_path E name \<Longrightarrow> fs w q = Some Dir \<Longrightarrow>
     fs (snd (convert_icon E name w)) q = Some Dir"
  by (rule convert_icon_cases [of w E name])
     (simp_all add: convert_icon_skip convert_icon_src_dir convert_icon_undecodable
        convert_icon_mkdir_fails convert_icon_save_fails convert_icon_ok print_def made_dirs_def)

lemma dst_not_above: "\<not> prefix (dst_path E name) (parent (dst_path E name))"
  unfolding parent_def by (rule not_prefix_butlast) (rule dst_path_nonempty)

lemma convert_icon_unwritten:
  "fst (convert_icon E name w) \<noteq> Inr True \<Longrightarrow>
     fs (snd (convert_icon E name w)) (dst_path E name) = fs w (dst_path E name)"
  using dst_not_above [of E name]
  by (rule_tac convert_icon_cases [of w E name])
     (simp_all add: convert_icon_skip convert_icon_src_dir convert_icon_undecodable
        convert_icon_mkdir_fails convert_icon_save_fails convert_icon_ok print_def made_dirs_def)

text \<open>The paths of the configured icons.\<close>

lemma icon_dst_parent: "name \<in> set ICONS \<Longrightarrow> parent (dst_path E name) = BASE_DIR E"
  by (simp add: icon_dst_path parent_def)

lemma not_prefix_longer: "\<not> prefix (p @ x # xs) p"
  by (auto dest: prefix_length_le)

lemma icon_src_not_dst:
  "n \<in> set ICONS \<Longrightarrow> m \<in> set ICONS \<Longrightarrow> src_path E n \<noteq> dst_path E m"
  by (simp add: icon_src_path icon_dst_path)

lemma icon_src_not_above:
  "n \<in> set ICONS \<Longrightarrow> m \<in> set ICONS \<Longrightarrow> \<not> prefix (src_path E n) (parent (dst_path E m))"
  by (simp add: icon_src_path icon_dst_parent not_prefix_longer)

lemma icon_dst_distinct:
  "n \<in> set ICONS \<Longrightarrow> m \<in> set ICONS \<Longrightarrow> m \<noteq> n \<Longrightarrow> dst_path E n \<noteq> dst_path E m"
  by (simp add: icon_dst_path)

lemma icon_dst_not_above:
  "n \<in> set ICONS \<Longrightarrow> m \<in> set ICONS \<Longrightarrow> \<not> prefix (dst_path E n) (parent (dst_path E m))"
  by (simp add: icon_dst_path parent_def not_prefix_longer)

lemma list_ex_files_cong:
  "(\<And>q. prefix q p \<Longrightarrow> is_file (fs v q) = is_file (fs w q)) \<Longrightarrow>
     list_ex (\<lambda>q. is_file (fs v q)) (prefixes p) = list_ex (\<lambda>q. is_file (fs w q)) (prefixes p)"
  by (simp add: list_ex_iff in_set_prefixes)

lemma convert_icon_same_files_above:
  assumes "n \<in> set ICONS" and "m \<in> set ICONS"
  shows "list_ex (\<lambda>q. is_file (fs (snd (convert_icon E m w)) q)) (prefixes (parent (dst_path E n)))
       = list_ex (\<lambda>q. is_file (fs w q)) (prefixes (parent (dst_path E n)))"
proof (rule list_ex_files_cong)
  fix q assume "prefix q (parent (dst_path E n))"
  with assms have "q \<noteq> dst_path E m"
    using icon_dst_not_above [of m n E] by auto
  then show "is_file (fs (snd (convert_icon E m w)) q) = is_file (fs w q)"
    by (rule convert_icon_files)
qed

lemma convert_icon_other_outlook:
  assumes "n \<in> set ICONS" and "m \<in> set ICONS" and "m \<noteq> n"
  shows "same_outlook E n w (snd (convert_icon E m w))"
    and "fs (snd (convert_icon E m w)) (dst_path E n) = fs w (dst_path E n)"
proof -
  have s: "fs (snd (convert_icon E m w)) (src_path E n) = fs w (src_path E n)"
    using assms by (simp add: convert_icon_elsewhere icon_src_not_dst icon_src_not_above)
  show d: "fs (snd (convert_icon E m w)) (dst_path E n) = fs w (dst_path E n)"
    using assms by (simp add: convert_icon_elsewhere icon_dst_distinct icon_dst_not_above)
  from s d assms show "same_outlook E n w (snd (convert_icon E m w))"
    by (simp add: same_outlook_def convert_icon_same_files_above)
qed

text \<open>The result of a conversion is decided by what the world shows it.\<close>

lemma same_outlook_result:
  assumes "same_outlook E name w v"
  shows "fst (convert_icon E name v) = fst (convert_icon E name w)"
    and "fst (convert_icon E name w) = Inr True \<Longrightarrow>
           fs (snd (convert_icon E name v)) (dst_path E name)
             = fs (snd (convert_icon E name w)) (dst_path E name)"
proof -
  from assms have
    s: "fs v (src_path E name) = fs w (src_path E name)" and
    d: "(fs v (dst_path E name) = Some Dir) = (fs w (dst_path E name) = Some Dir)" and
    l: "list_ex (\<lambda>q. is_file (fs v q)) (prefixes (parent (dst_path E name)))
          = list_ex (\<lambda>q. is_file (fs w q)) (prefixes (parent (dst_path E name)))"
    by (simp_all add: same_outlook_def)
  have c: "can_write E v name = can_write E w name"
    using d l by (simp add: can_write_def)
  show "fst (convert_icon E name v) = fst (convert_icon E name w)"
    using s d l c
    by (rule_tac convert_icon_cases [of w E name])
       (simp_all add: convert_icon_skip convert_icon_src_dir convert_icon_undecodable
          convert_icon_mkdir_fails convert_icon_save_fails convert_icon_ok)
  show "fs (snd (convert_icon E name v)) (dst_path E name)
             = fs (snd (convert_icon E name w)) (dst_path E name)"
    if "fst (convert_icon E name w) = Inr True"
    using that s d l c
    by (rule_tac convert_icon_cases [of w E name])
       (simp_all add: convert_icon_skip convert_icon_src_dir convert_icon_undecodable
          convert_icon_mkdir_fails convert_icon_save_fails convert_icon_ok print_def)
qed

lemma convert_icon_returned:
  assumes "fst (convert_icon E name w) = Inr r"
  shows "r = path_exists w (src_path E name)"
  using assms
  by (rule_tac convert_icon_cases [of w E name])
     (auto simp: convert_icon_skip convert_icon_src_dir convert_icon_undecodable
        convert_icon_mkdir_fails convert_icon_save_fails convert_icon_ok path_exists_def)

lemma convert_icon_written:
  assumes "fst (convert_icon E name w) = Inr True"
  shows "\<exists>bs img0. fs w (src_path E name) = Some (File bs) \<and> decode_rgba E bs = Some img0
     \<and> fs (snd (convert_icon E name w)) (dst_path E name)
         = Some (File (encode_bmp E (rendered E img0)))"
proof -
  from assms obtain bs img0 where *: "fs w (src_path E name) = Some (File bs)"
      "decode_rgba E bs = Some img0" "can_write E w name"
    using convert_icon_true by blast
  then have "fs (snd (convert_icon E name w)) (dst_path E name)
         = Some (File (encode_bmp E (rendered E img0)))"
    by (simp add: convert_icon_ok print_def)
  with * show ?thesis by blast
qed

section \<open>Running the batch again\<close>

lemma settled_for_fs: "fs v = fs v' \<Longrightarrow> settled_for E name w v = settled_for E name w v'"
  by (simp add: settled_for_def)

lemma made_dirs_id:
  "(\<And>q. prefix q p \<Longrightarrow> f q = Some Dir) \<Longrightarrow> made_dirs p f = f"
  by (auto simp: made_dirs_def)

lemma settled_for_again:
  assumes "settled_for E name w v"
  shows "fst (convert_icon E name v) = fst (convert_icon E name w)"
    and "fs (snd (convert_icon E name v)) = fs v"
proof -
  let ?P = "parent (dst_path E name)"
  let ?w1 = "snd (convert_icon E name w)"
  from assms have
    s: "fs v (src_path E name) = fs w (src_path E name)" and
    d: "fs v (dst_path E name) = fs ?w1 (dst_path E name)" and
    k: "\<And>q. prefix q ?P \<Longrightarrow> fs ?w1 q = Some Dir \<Longrightarrow> fs v q = Some Dir" and
    l: "list_ex (\<lambda>q. is_file (fs v q)) (prefixes ?P) = list_ex (\<lambda>q. is_file (fs w q)) (prefixes ?P)"
    by (simp_all add: settled_for_def)
  have nd: "\<not> prefix (dst_path E name) ?P" by (rule dst_not_above)
  have "fst (convert_icon E name v) = fst (convert_icon E name w)
      \<and> fs (snd (convert_icon E name v)) = fs v"
  proof (rule convert_icon_cases [of w E name])
    assume "fs w (src_path E name) = None"
    with s show ?thesis by (simp add: convert_icon_skip print_def)
  next
    assume "fs w (src_path E name) = Some Dir"
    with s show ?thesis by (simp add: convert_icon_src_dir)
  next
    fix bs assume "fs w (src_path E name) = Some (File bs)" "decode_rgba E bs = None"
    with s show ?thesis by (simp add: convert_icon_undecodable)
  next
    fix bs img0
    assume "fs w (src_path E name) = Some (File bs)" "decode_rgba E bs = Some img0"
      "list_ex (\<lambda>q. is_file (fs w q)) (prefixes ?P)"
    with s l show ?thesis by (simp add: convert_icon_mkdir_fails)
  next
    fix bs img0
    assume a: "fs w (src_path E name) = Some (File bs)" "decode_rgba E bs = Some img0"
      "\<not> list_ex (\<lambda>q. is_file (fs w q)) (prefixes ?P)" "fs w (dst_path E name) = Some Dir"
    then have w1: "fs ?w1 = made_dirs ?P (fs w)"
      by (simp add: convert_icon_save_fails)
    with a d have dv: "fs v (dst_path E name) = Some Dir"
      by (simp add: made_dirs_def)
    from w1 k have "made_dirs ?P (fs v) = fs v"
      by (intro made_dirs_id) (simp add: made_dirs_def)
    with a s l dv show ?thesis by (simp add: convert_icon_save_fails)
  next
    fix bs img0
    assume a: "fs w (src_path E name) = Some (File bs)" "decode_rgba E bs = Some img0"
      "can_write E w name"
    then have w1: "fs ?w1 = (made_dirs ?P (fs w))
        (dst_path E name \<mapsto> File (encode_bmp E (rendered E img0)))"
      by (simp add: convert_icon_ok print_def)
    with d have dv: "fs v (dst_path E name) = Some (File (encode_bmp E (rendered E img0)))"
      by simp
    from a l dv have cv: "can_write E v name" by (simp add: can_write_def)
    have "fs v q = Some Dir" if "prefix q ?P" for q
    proof -
      from that nd have "q \<noteq> dst_path E name" by auto
      with that w1 have "fs ?w1 q = Some Dir" by (simp add: made_dirs_def)
      with that show ?thesis by (rule k)
    qed
    then have "made_dirs ?P (fs v) = fs v" by (rule made_dirs_id)
    with dv have "(made_dirs ?P (fs v))
        (dst_path E name \<mapsto> File (encode_bmp E (rendered E img0))) = fs v"
      by (simp add: fun_upd_idem)
    with a s cv show ?thesis by (simp add: convert_icon_ok print_def)
  qed
  then show "fst (convert_icon E name v) = fst (convert_icon E name w)"
    and "fs (snd (convert_icon E name v)) = fs v" by simp_all
qed

lemma settled_for_self:
  assumes "n \<in> set ICONS"
  shows "settled_for E n w (snd (convert_icon E n w))"
  using assms
  by (simp add: settled_for_def convert_icon_elsewhere icon_src_not_dst icon_src_not_above
      convert_icon_same_files_above)

lemma settled_for_other:
  assumes "n \<in> set ICONS" and "m \<in> set ICONS" and "m \<noteq> n" and "settled_for E n w v"
  shows "settled_for E n w (snd (convert_icon E m v))"
proof -
  let ?v1 = "snd (convert_icon E m v)"
  have o: "same_outlook E n v ?v1" and d: "fs ?v1 (dst_path E n) = fs v (dst_path E n)"
    using assms(1-3) by (rule convert_icon_other_outlook)+
  have "fs ?v1 q = Some Dir" if "prefix q (parent (dst_path E n))" "fs v q = Some Dir" for q
  proof -
    from that assms have "q \<noteq> dst_path E m"
      using icon_dst_not_above [of m n E] by auto
    then show ?thesis using that(2) by (rule convert_icon_keeps_dirs)
  qed
  with o d assms(4) show ?thesis
    by (simp add: settled_for_def same_outlook_def)
qed

lemma settled_for_loop:
  assumes "n \<in> set ICONS"
  shows "set ms \<subseteq> set ICONS \<Longrightarrow> n \<notin> set ms \<Longrightarrow> settled_for E n w v \<Longrightarrow>
     settled_for E n w (snd (convert_loop E ms a v))"
proof (induction ms arbitrary: a v)
  case Nil
  then show ?case by simp
next
  case (Cons m ms)
  then have m: "m \<in> set ICONS" "m \<noteq> n" by auto
  obtain r v1 where c: "convert_icon E m v = (r, v1)" by (cases "convert_icon E m v")
  have s1: "settled_for E n w v1"
    using settled_for_other [OF assms m Cons.prems(3)] c by simp
  show ?case
  proof (cases r)
    case (Inl e)
    with c s1 show ?thesis by simp
  next
    case (Inr ok)
    from Cons.prems have "set ms \<subseteq> set ICONS" "n \<notin> set ms" by auto
    from Cons.IH [OF this s1]
    have "settled_for E n w (snd (convert_loop E ms (if ok then a + 1 else a) v1))" .
    with c Inr show ?thesis by simp
  qed
qed

lemma convert_loop_step:
  "convert_icon E n w = (r, w1) \<Longrightarrow>
     convert_loop E (n # ns) a w =
       (case r of Inl e \<Rightarrow> (Inl e, w1)
        | Inr ok \<Rightarrow> convert_loop E ns (if ok then a + 1 else a) w1)"
  by simp

lemma convert_loop_again:
  "distinct ns \<Longrightarrow> set ns \<subseteq> set ICONS \<Longrightarrow> fs v = fs (snd (convert_loop E ns a w)) \<Longrightarrow>
     fs (snd (convert_loop E ns b v)) = fs v"
proof (induction ns arbitrary: a b w v)
  case Nil
  then show ?case by simp
next
  case (Cons n ns)
  from Cons.prems(1,2)
  have n: "n \<in> set ICONS" "n \<notin> set ns" "set ns \<subseteq> set ICONS" "distinct ns" by auto
  note fv = Cons.prems(3)
  obtain r w1 where c: "convert_icon E n w = (r, w1)" by (cases "convert_icon E n w")
  obtain r' v1 where c': "convert_icon E n v = (r', v1)" by (cases "convert_icon E n v")
  have self: "settled_for E n w w1"
    using settled_for_self [OF n(1), of E w] c by simp
  show ?case
  proof (cases r)
    case (Inl e)
    from fv have "fs v = fs w1"
      unfolding convert_loop_step [OF c] Inl by simp
    with self have "settled_for E n w v" by (simp only: settled_for_fs [of v w1])
    from settled_for_again [OF this]
    have "fst (convert_icon E n v) = fst (convert_icon E n w)"
      and "fs (snd (convert_icon E n v)) = fs v" .
    then have "r' = Inl e" "fs v1 = fs v" using c c' Inl by simp_all
    then show ?thesis
      unfolding convert_loop_step [OF c'] by simp
  next
    case (Inr ok)
    let ?a = "if ok then a + 1 else a"
    let ?b = "if ok then b + 1 else b"
    from fv have fv': "fs v = fs (snd (convert_loop E ns ?a w1))"
      unfolding convert_loop_step [OF c] Inr by simp
    have "settled_for E n w (snd (convert_loop E ns ?a w1))"
      using n(1) n(3) n(2) self by (rule settled_for_loop)
    with fv' have "settled_for E n w v"
      by (simp only: settled_for_fs [of v "snd (convert_loop E ns ?a w1)"])
    from settled_for_again [OF this]
    have "fst (convert_icon E n v) = fst (convert_icon E n w)"
      and "fs (snd (convert_icon E n v)) = fs v" .
    then have r': "r' = Inr ok" and v1: "fs v1 = fs v" using c c' Inr by simp_all
    from v1 fv' have "fs v1 = fs (snd (convert_loop E ns ?a w1))" by (rule trans)
    from Cons.IH [OF n(4) n(3) this]
    have "fs (snd (convert_loop E ns ?b v1)) = fs v1" .
    from this v1 have "fs (snd (convert_loop E ns ?b v1)) = fs v" by (rule trans)
    then show ?thesis
      unfolding convert_loop_step [OF c'] r' by simp
  qed
qed

lemma distinct_ICONS: "distinct ICONS"
  by (simp add: ICONS_def)

lemma fs_print: "fs (print s w) = fs w"
  by (simp add: print_def)

lemma main_fs:
  "fs (snd (main E w)) =
     fs (snd (convert_loop E ICONS 0
       (print [] (print (''Output: '' @ str_path (DST_DIR E))
          (print (''Source: '' @ str_path (SRC_DIR E)) w)))))"
  by (simp add: main_def Let_def fs_print split: prod.split sum.split)

text \<open>
  Claim C7. After a second run of the batch the file system is what the first run left:
  every output file holds the same bytes. The bytes a conversion writes are a function of
  the bytes of its source file.
\<close>

theorem batch_rerun_same_files:
  "fs (snd (main E (snd (main E w)))) = fs (snd (main E w))
   \<and> (fst (convert_icon E name w) = Inr True \<longrightarrow>
        (\<exists>bs out. fs w (src_path E name) = Some (File bs)
           \<and> output_bytes E bs = Some out
           \<and> fs (snd (convert_icon E name w)) (dst_path E name) = Some (File out)))"
proof
  let ?pre = "\<lambda>w. print [] (print (''Output: '' @ str_path (DST_DIR E))
          (print (''Source: '' @ str_path (SRC_DIR E)) w))"
  have "fs (?pre (snd (main E w))) = fs (snd (convert_loop E ICONS 0 (?pre w)))"
    by (simp add: fs_print main_fs)
  with distinct_ICONS have "fs (snd (convert_loop E ICONS 0 (?pre (snd (main E w)))))
      = fs (?pre (snd (main E w)))"
    by (intro convert_loop_again) simp_all
  then show "fs (snd (main E (snd (main E w)))) = fs (snd (main E w))"
    by (simp add: main_fs [of E "snd (main E w)"] fs_print)
next
  show "fst (convert_icon E name w) = Inr True \<longrightarrow>
        (\<exists>bs out. fs w (src_path E name) = Some (File bs)
           \<and> output_bytes E bs = Some out
           \<and> fs (snd (convert_icon E name w)) (dst_path E name) = Some (File out))"
  proof
    assume "fst (convert_icon E name w) = Inr True"
    from convert_icon_written [OF this]
    show "\<exists>bs out. fs w (src_path E name) = Some (File bs)
           \<and> output_bytes E bs = Some out
           \<and> fs (snd (convert_icon E name w)) (dst_path E name) = Some (File out)"
      by (auto simp: output_bytes_def render_rendered)
  qed
qed

section \<open>The summary of the batch\<close>

lemma same_outlook_status:
  assumes "same_outlook E m w v"
  shows "path_exists v (src_path E m) = path_exists w (src_path E m)"
    and "convertible E v m = convertible E w m"
    and "status_line E v m = status_line E w m"
proof -
  from assms have c: "can_write E v m = can_write E w m"
    by (simp add: same_outlook_def can_write_def)
  from assms show p: "path_exists v (src_path E m) = path_exists w (src_path E m)"
    by (simp add: same_outlook_def path_exists_def)
  from assms c show "convertible E v m = convertible E w m"
    by (simp add: same_outlook_def convertible_def split: option.split node.split)
  from p show "status_line E v m = status_line E w m"
    by (simp add: status_line_def)
qed

lemma print_outlook: "same_outlook E n w (print s w)"
  by (simp add: same_outlook_def fs_print)

lemma print_status:
  "path_exists (print s w) (src_path E n) = path_exists w (src_path E n)"
  "convertible E (print s w) n = convertible E w n"
  "status_line E (print s w) n = status_line E w n"
  by (rule same_outlook_status [OF print_outlook])+

lemma print_status_line: "status_line E (print s w) = status_line E w"
  by (rule ext) (rule print_status)

lemma convert_icon_line:
  assumes "path_exists w (src_path E n) \<longrightarrow> convertible E w n"
  shows "fst (convert_icon E n w) = Inr (path_exists w (src_path E n))"
    and "console (snd (convert_icon E n w)) = console w @ [status_line E w n]"
proof -
  have "fst (convert_icon E n w) = Inr (path_exists w (src_path E n))
      \<and> console (snd (convert_icon E n w)) = console w @ [status_line E w n]"
  proof (cases "fs w (src_path E n)")
    case None
    then show ?thesis
      by (simp add: convert_icon_skip path_exists_def status_line_def print_def)
  next
    case (Some nd)
    with assms have "convertible E w n" by (simp add: path_exists_def)
    then obtain bs img0 where "fs w (src_path E n) = Some (File bs)"
      "decode_rgba E bs = Some img0" "can_write E w n"
      by (auto simp: convertible_def split: option.splits node.splits)
    then show ?thesis
      by (simp add: convert_icon_ok path_exists_def status_line_def print_def)
  qed
  then show "fst (convert_icon E n w) = Inr (path_exists w (src_path E n))"
    and "console (snd (convert_icon E n w)) = console w @ [status_line E w n]" by simp_all
qed

lemma convert_loop_console:
  "distinct ns \<Longrightarrow> set ns \<subseteq> set ICONS \<Longrightarrow>
   list_all (\<lambda>n. path_exists w (src_path E n) \<longrightarrow> convertible E w n) ns \<Longrightarrow>
     fst (convert_loop E ns a w) =
       Inr (a + int (length (filter (\<lambda>n. path_exists w (src_path E n)) ns)))
     \<and> console (snd (convert_loop E ns a w)) = console w @ map (status_line E w) ns"
proof (induction ns arbitrary: a w)
  case Nil
  then show ?case by simp
next
  case (Cons n ns)
  from Cons.prems(1,2)
  have n: "n \<in> set ICONS" "n \<notin> set ns" "set ns \<subseteq> set ICONS" "distinct ns" by auto
  from Cons.prems(3) have hn: "path_exists w (src_path E n) \<longrightarrow> convertible E w n"
    and hns: "list_all (\<lambda>n. path_exists w (src_path E n) \<longrightarrow> convertible E w n) ns"
    by simp_all
  obtain r w1 where c: "convert_icon E n w = (r, w1)" by (cases "convert_icon E n w")
  let ?ok = "path_exists w (src_path E n)"
  from convert_icon_line [OF hn] c
  have r: "r = Inr ?ok" and l: "console w1 = console w @ [status_line E w n]" by simp_all
  have same: "same_outlook E m w w1" if "m \<in> set ns" for m
  proof -
    from that n have "m \<in> set ICONS" "n \<noteq> m" by auto
    with n(1) have "same_outlook E m w (snd (convert_icon E n w))"
      by (intro convert_icon_other_outlook) simp_all
    with c show ?thesis by simp
  qed
  have ex: "path_exists w1 (src_path E m) = path_exists w (src_path E m)" if "m \<in> set ns" for m
    using same [OF that] by (rule same_outlook_status)
  have cv: "convertible E w1 m = convertible E w m" if "m \<in> set ns" for m
    using same [OF that] by (rule same_outlook_status)
  have st: "status_line E w1 m = status_line E w m" if "m \<in> set ns" for m
    using same [OF that] by (rule same_outlook_status)
  from hns ex cv
  have "list_all (\<lambda>n. path_exists w1 (src_path E n) \<longrightarrow> convertible E w1 n) ns"
    by (simp add: list_all_iff)
  from Cons.IH [OF n(4) n(3) this, of "if ?ok then a + 1 else a"]
  have ih: "fst (convert_loop E ns (if ?ok then a + 1 else a) w1) =
       Inr ((if ?ok then a + 1 else a)
         + int (length (filter (\<lambda>n. path_exists w1 (src_path E n)) ns)))"
    "console (snd (convert_loop E ns (if ?ok then a + 1 else a) w1))
       = console w1 @ map (status_line E w1) ns"
    by simp_all
  have f: "filter (\<lambda>n. path_exists w1 (src_path E n)) ns
      = filter (\<lambda>n. path_exists w (src_path E n)) ns"
    using ex by (intro filter_cong) simp_all
  have m: "map (status_line E w1) ns = map (status_line E w) ns"
    using st by (intro map_cong) simp_all
  show ?case
    unfolding convert_loop_step [OF c] r
    using ih l by (simp add: f m)
qed

lemma str_int_digit: "str_int 3 = ''3''" "str_int 7 = ''7''"
  by code_simp+

lemma length_ICONS: "length ICONS = 7"
  by (simp add: ICONS_def)

text \<open>
  Claim C6, amended. When every configured source that exists converts without an
  exception, the batch prints its two header lines and an empty line, then one line per
  configured name in the order of the list, then an empty line and the summary with the
  number of conversions that returned true out of 7. With exactly three existing sources
  the last line is "Converted 3/7 icons".
\<close>

theorem batch_summary:
  assumes "list_all (\<lambda>n. path_exists w (src_path E n) \<longrightarrow> convertible E w n) ICONS"
  shows "fst (main E w) = Inr ()
       \<and> console (snd (main E w)) =
           console w
           @ [''Source: '' @ str_path (SRC_DIR E), ''Output: '' @ str_path (DST_DIR E), []]
           @ map (status_line E w) ICONS
           @ [[], ''Converted ''
                @ str_int (int (length (filter (\<lambda>n. fst (convert_icon E n w) = Inr True) ICONS)))
                @ ''/7 icons'']
       \<and> (length (filter (\<lambda>n. path_exists w (src_path E n)) ICONS) = 3
            \<longrightarrow> last (console (snd (main E w))) = ''Converted 3/7 icons'')"
proof -
  let ?w3 = "print [] (print (''Output: '' @ str_path (DST_DIR E))
          (print (''Source: '' @ str_path (SRC_DIR E)) w))"
  let ?k = "length (filter (\<lambda>n. path_exists w (src_path E n)) ICONS)"
  have "list_all (\<lambda>n. path_exists ?w3 (src_path E n) \<longrightarrow> convertible E ?w3 n) ICONS"
    using assms by (simp only: print_status)
  with distinct_ICONS
  have "fst (convert_loop E ICONS 0 ?w3) =
       Inr (0 + int (length (filter (\<lambda>n. path_exists ?w3 (src_path E n)) ICONS)))
     \<and> console (snd (convert_loop E ICONS 0 ?w3)) = console ?w3 @ map (status_line E ?w3) ICONS"
    by (intro convert_loop_console) simp_all
  then have l: "fst (convert_loop E ICONS 0 ?w3) = Inr (int ?k)"
    "console (snd (convert_loop E ICONS 0 ?w3)) = console ?w3 @ map (status_line E w) ICONS"
    by (simp_all only: print_status print_status_line add_0)
  obtain r w' where c: "convert_loop E ICONS 0 ?w3 = (r, w')"
    by (cases "convert_loop E ICONS 0 ?w3")
  with l have r: "r = Inr (int ?k)"
    and w': "console w' = console ?w3 @ map (status_line E w) ICONS" by simp_all
  have k: "filter (\<lambda>n. fst (convert_icon E n w) = Inr True) ICONS
      = filter (\<lambda>n. path_exists w (src_path E n)) ICONS"
  proof (rule filter_cong)
    fix n assume "n \<in> set ICONS"
    with assms have "path_exists w (src_path E n) \<longrightarrow> convertible E w n"
      by (simp add: list_all_iff)
    from convert_icon_line(1) [OF this]
    show "(fst (convert_icon E n w) = Inr True) = path_exists w (src_path E n)" by auto
  qed simp
  have m: "main E w = (Inr (), print (''Converted '' @ str_int (int ?k) @ ''/''
                               @ str_int (int (length ICONS)) @ '' icons'') (print [] w'))"
    unfolding main_def Let_def c r by simp
  show ?thesis
    unfolding m k
    by (simp add: print_def w' length_ICONS str_int_digit)
qed

section \<open>The icons in the batch\<close>

lemma not_can_write:
  "\<not> can_write E v name \<Longrightarrow>
     list_ex (\<lambda>q. is_file (fs v q)) (prefixes (parent (dst_path E name)))
     \<or> fs v (dst_path E name) = Some Dir"
  by (simp add: can_write_def)

lemma convert_icon_cannot_write:
  assumes "fs v (src_path E name) = Some (File bs)" and "decode_rgba E bs = Some img0"
    and "\<not> can_write E v name"
  shows "fst (convert_icon E name v) = Inl OSError"
proof (cases "list_ex (\<lambda>q. is_file (fs v q)) (prefixes (parent (dst_path E name)))")
  case True
  with assms show ?thesis by (simp add: convert_icon_mkdir_fails)
next
  case False
  with assms(3) have "fs v (dst_path E name) = Some Dir" by (simp add: can_write_def)
  with assms False show ?thesis by (simp add: convert_icon_save_fails)
qed

lemma same_source_result:
  assumes s: "fs v (src_path E name) = fs w (src_path E name)"
    and c: "can_write E v name = can_write E w name"
  shows "fst (convert_icon E name v) = fst (convert_icon E name w)"
    and "fst (convert_icon E name w) = Inr True \<Longrightarrow>
           fs (snd (convert_icon E name v)) (dst_path E name)
             = fs (snd (convert_icon E name w)) (dst_path E name)"
proof -
  have "fst (convert_icon E name v) = fst (convert_icon E name w)
     \<and> (fst (convert_icon E name w) = Inr True \<longrightarrow>
           fs (snd (convert_icon E name v)) (dst_path E name)
             = fs (snd (convert_icon E name w)) (dst_path E name))"
  proof (rule convert_icon_cases [of w E name])
    assume "fs w (src_path E name) = None"
    with s show ?thesis by (simp add: convert_icon_skip)
  next
    assume "fs w (src_path E name) = Some Dir"
    with s show ?thesis by (simp add: convert_icon_src_dir)
  next
    fix bs assume "fs w (src_path E name) = Some (File bs)" "decode_rgba E bs = None"
    with s show ?thesis by (simp add: convert_icon_undecodable)
  next
    fix bs img0
    assume a: "fs w (src_path E name) = Some (File bs)" "decode_rgba E bs = Some img0"
      "list_ex (\<lambda>q. is_file (fs w q)) (prefixes (parent (dst_path E name)))"
    then have "\<not> can_write E w name" by (simp add: can_write_def)
    with c have "\<not> can_write E v name" by simp
    with a s have "fst (convert_icon E name v) = Inl OSError"
      by (intro convert_icon_cannot_write) simp_all
    with a show ?thesis by (simp add: convert_icon_mkdir_fails)
  next
    fix bs img0
    assume a: "fs w (src_path E name) = Some (File bs)" "decode_rgba E bs = Some img0"
      "\<not> list_ex (\<lambda>q. is_file (fs w q)) (prefixes (parent (dst_path E name)))"
      "fs w (dst_path E name) = Some Dir"
    then have "\<not> can_write E w name" by (simp add: can_write_def)
    with c have "\<not> can_write E v name" by simp
    with a s have "fst (convert_icon E name v) = Inl OSError"
      by (intro convert_icon_cannot_write) simp_all
    with a show ?thesis by (simp add: convert_icon_save_fails)
  next
    fix bs img0
    assume a: "fs w (src_path E name) = Some (File bs)" "decode_rgba E bs = Some img0"
      "can_write E w name"
    with c s have "fs v (src_path E name) = Some (File bs)" "can_write E v name" by simp_all
    with a show ?thesis by (simp add: convert_icon_ok print_def)
  qed
  then show "fst (convert_icon E name v) = fst (convert_icon E name w)"
    and "fst (convert_icon E name w) = Inr True \<Longrightarrow>
           fs (snd (convert_icon E name v)) (dst_path E name)
             = fs (snd (convert_icon E name w)) (dst_path E name)" by simp_all
qed

lemma same_outlook_refl: "same_outlook E n w w"
  by (simp add: same_outlook_def)

lemma same_outlook_trans:
  "same_outlook E n w v \<Longrightarrow> same_outlook E n v u \<Longrightarrow> same_outlook E n w u"
  by (simp add: same_outlook_def)

lemma same_outlook_returns:
  "same_outlook E n w v \<Longrightarrow> returns E v n = returns E w n"
  by (simp add: returns_def same_outlook_result)

lemma same_outlook_left:
  assumes "same_outlook E n w v" and "fs v (dst_path E n) = fs w (dst_path E n)"
  shows "fs (snd (convert_icon E n v)) (dst_path E n) = fs (snd (convert_icon E n w)) (dst_path E n)"
proof (cases "fst (convert_icon E n w) = Inr True")
  case True
  with assms(1) show ?thesis by (rule same_outlook_result)
next
  case False
  moreover from assms(1) have "fst (convert_icon E n v) = fst (convert_icon E n w)"
    by (rule same_outlook_result)
  ultimately show ?thesis using assms(2) by (simp add: convert_icon_unwritten)
qed

lemma convert_loop_keeps_dst:
  assumes "n \<in> set ICONS"
  shows "set ms \<subseteq> set ICONS \<Longrightarrow> n \<notin> set ms \<Longrightarrow>
     fs (snd (convert_loop E ms a v)) (dst_path E n) = fs v (dst_path E n)"
proof (induction ms arbitrary: a v)
  case Nil
  then show ?case by simp
next
  case (Cons m ms)
  then have m: "m \<in> set ICONS" "m \<noteq> n" "set ms \<subseteq> set ICONS" "n \<notin> set ms" by auto
  obtain r v1 where c: "convert_icon E m v = (r, v1)" by (cases "convert_icon E m v")
  have d: "fs v1 (dst_path E n) = fs v (dst_path E n)"
    using convert_icon_other_outlook(2) [OF assms m(1,2), of E v] c by simp
  show ?case
  proof (cases r)
    case (Inl e)
    with d show ?thesis unfolding convert_loop_step [OF c] by simp
  next
    case (Inr ok)
    from Cons.IH [OF m(3,4), of "if ok then a + 1 else a" v1] d
    show ?thesis unfolding convert_loop_step [OF c] Inr by simp
  qed
qed

lemma convert_loop_prefix:
  "distinct pre \<Longrightarrow> set pre \<subseteq> set ICONS \<Longrightarrow> list_all (returns E w) pre \<Longrightarrow>
     fst (convert_loop E pre a w) =
       Inr (a + int (length (filter (\<lambda>m. fst (convert_icon E m w) = Inr True) pre)))
     \<and> (\<forall>n. n \<in> set ICONS \<longrightarrow> n \<notin> set pre \<longrightarrow>
          same_outlook E n w (snd (convert_loop E pre a w))
          \<and> fs (snd (convert_loop E pre a w)) (dst_path E n) = fs w (dst_path E n))"
proof (induction pre arbitrary: a w)
  case Nil
  then show ?case by (simp add: same_outlook_refl)
next
  case (Cons m pre)
  from Cons.prems(1,2)
  have m: "m \<in> set ICONS" "m \<notin> set pre" "set pre \<subseteq> set ICONS" "distinct pre" by auto
  from Cons.prems(3) have rm: "returns E w m" and rp: "list_all (returns E w) pre" by simp_all
  obtain r w1 where c: "convert_icon E m w = (r, w1)" by (cases "convert_icon E m w")
  with rm obtain ok where r: "r = Inr ok" by (cases r) (simp_all add: returns_def)
  have o: "same_outlook E n w w1" and d: "fs w1 (dst_path E n) = fs w (dst_path E n)"
    if "n \<in> set ICONS" "n \<noteq> m" for n
    using convert_icon_other_outlook [OF that(1) m(1), of E w] that(2) c by simp_all
  have same: "fst (convert_icon E k w1) = fst (convert_icon E k w)" if "k \<in> set pre" for k
  proof -
    from that m have "k \<in> set ICONS" "k \<noteq> m" by auto
    then show ?thesis by (intro same_outlook_result o)
  qed
  then have "list_all (returns E w1) pre"
    using rp by (simp add: list_all_iff returns_def)
  from Cons.IH [OF m(4) m(3) this, of "if ok then a + 1 else a"]
  have ih1: "fst (convert_loop E pre (if ok then a + 1 else a) w1) =
       Inr ((if ok then a + 1 else a)
          + int (length (filter (\<lambda>m. fst (convert_icon E m w1) = Inr True) pre)))"
    and ih2: "\<And>n. n \<in> set ICONS \<Longrightarrow> n \<notin> set pre \<Longrightarrow>
          same_outlook E n w1 (snd (convert_loop E pre (if ok then a + 1 else a) w1))
          \<and> fs (snd (convert_loop E pre (if ok then a + 1 else a) w1)) (dst_path E n)
              = fs w1 (dst_path E n)"
    by blast+
  have f: "filter (\<lambda>m. fst (convert_icon E m w1) = Inr True) pre
      = filter (\<lambda>m. fst (convert_icon E m w) = Inr True) pre"
    using same by (intro filter_cong) simp_all
  have l: "convert_loop E (m # pre) a w = convert_loop E pre (if ok then a + 1 else a) w1"
    unfolding convert_loop_step [OF c] r by simp
  have ok: "(fst (convert_icon E m w) = Inr True) = ok" using c r by simp
  show ?case
  proof (intro conjI allI impI)
    show "fst (convert_loop E (m # pre) a w) =
       Inr (a + int (length (filter (\<lambda>m. fst (convert_icon E m w) = Inr True) (m # pre))))"
      unfolding l ih1 f using ok by simp
  next
    fix n assume n: "n \<in> set ICONS" "n \<notin> set (m # pre)"
    then have nm: "n \<noteq> m" "n \<notin> set pre" by auto
    from ih2 [OF n(1) nm(2)] o [OF n(1) nm(1)]
    show "same_outlook E n w (snd (convert_loop E (m # pre) a w))"
      unfolding l by (blast intro: same_outlook_trans)
    from ih2 [OF n(1) nm(2)] d [OF n(1) nm(1)]
    show "fs (snd (convert_loop E (m # pre) a w)) (dst_path E n) = fs w (dst_path E n)"
      unfolding l by simp
  qed
qed

lemma convert_loop_append:
  "fst (convert_loop E pre a w) = Inr k \<Longrightarrow>
     convert_loop E (pre @ rest) a w = convert_loop E rest k (snd (convert_loop E pre a w))"
proof (induction pre arbitrary: a w)
  case Nil
  then show ?case by simp
next
  case (Cons m pre)
  obtain r w1 where c: "convert_icon E m w = (r, w1)" by (cases "convert_icon E m w")
  show ?case
  proof (cases r)
    case (Inl e)
    with Cons.prems c show ?thesis by simp
  next
    case (Inr ok)
    with Cons.prems c
    have "fst (convert_loop E pre (if ok then a + 1 else a) w1) = Inr k" by simp
    from Cons.IH [OF this] c Inr show ?thesis by simp
  qed
qed

lemma print_returns: "returns E (print s w) = returns E w"
  by (rule ext) (rule same_outlook_returns, rule print_outlook)

lemma print_left:
  "fs (snd (convert_icon E n (print s w))) (dst_path E n)
     = fs (snd (convert_icon E n w)) (dst_path E n)"
  by (rule same_outlook_left) (simp_all add: print_outlook fs_print)

lemma batch_leaves:
  assumes n: "n \<in> set ICONS" and sp: "ICONS = pre @ n # post"
    and rp: "list_all (returns E u) pre"
  shows "fst (convert_loop E pre a u) =
           Inr (a + int (length (filter (\<lambda>m. fst (convert_icon E m u) = Inr True) pre)))"
    and "fst (convert_icon E n (snd (convert_loop E pre a u))) = fst (convert_icon E n u)"
    and "convert_loop E ICONS a u =
           convert_loop E (n # post)
             (a + int (length (filter (\<lambda>m. fst (convert_icon E m u) = Inr True) pre)))
             (snd (convert_loop E pre a u))"
    and "fs (snd (convert_loop E ICONS a u)) (dst_path E n)
           = fs (snd (convert_icon E n u)) (dst_path E n)"
proof -
  let ?k = "a + int (length (filter (\<lambda>m. fst (convert_icon E m u) = Inr True) pre))"
  let ?up = "snd (convert_loop E pre a u)"
  have d: "distinct pre" "n \<notin> set pre" "n \<notin> set post"
    using distinct_ICONS unfolding sp by auto
  have sub: "set pre \<subseteq> set ICONS" "set post \<subseteq> set ICONS"
    unfolding sp by auto
  note p = convert_loop_prefix [OF d(1) sub(1) rp, of a]
  from p show k: "fst (convert_loop E pre a u) = Inr ?k" by (rule conjunct1)
  from p n d(2) have o: "same_outlook E n u ?up"
    and e: "fs ?up (dst_path E n) = fs u (dst_path E n)"
    by blast+
  from o show "fst (convert_icon E n ?up) = fst (convert_icon E n u)"
    by (rule same_outlook_result)
  from convert_loop_append [OF k, of "n # post"]
  show l: "convert_loop E ICONS a u = convert_loop E (n # post) ?k ?up"
    unfolding sp .
  obtain r w' where c: "convert_icon E n ?up = (r, w')" by (cases "convert_icon E n ?up")
  from same_outlook_left [OF o e] c
  have w': "fs w' (dst_path E n) = fs (snd (convert_icon E n u)) (dst_path E n)" by simp
  show "fs (snd (convert_loop E ICONS a u)) (dst_path E n)
           = fs (snd (convert_icon E n u)) (dst_path E n)"
  proof (cases r)
    case (Inl x)
    with w' show ?thesis unfolding l convert_loop_step [OF c] by simp
  next
    case (Inr ok)
    from convert_loop_keeps_dst [OF n sub(2) d(3), of E "if ok then ?k + 1 else ?k" w'] w'
    show ?thesis unfolding l convert_loop_step [OF c] Inr by simp
  qed
qed

text \<open>
  Claim C8, amended. The outcome of converting a configured name and the bytes it writes
  depend only on the source file of that name and on whether its output can be written.
  Converting another configured name first changes neither, whatever that conversion did.
  In the batch, when every name before it in the list returns, true or false, the loop
  reaches the name with the count of the true results so far, converts it with the
  outcome it has on the initial world, and at the end of the loop and of \<^verbatim>\<open>main\<close> its
  output path holds what its conversion alone leaves there.
\<close>

theorem icons_independent:
  assumes "n \<in> set ICONS"
  shows
   "(m \<in> set ICONS \<and> m \<noteq> n \<longrightarrow>
        fst (convert_icon E n (snd (convert_icon E m w))) = fst (convert_icon E n w)
      \<and> fs (snd (convert_icon E n (snd (convert_icon E m w)))) (dst_path E n)
          = fs (snd (convert_icon E n w)) (dst_path E n))
    \<and> (\<forall>v. fs v (src_path E n) = fs w (src_path E n) \<and> can_write E v n = can_write E w n
          \<longrightarrow> fst (convert_icon E n v) = fst (convert_icon E n w)
            \<and> (fst (convert_icon E n w) = Inr True
                 \<longrightarrow> fs (snd (convert_icon E n v)) (dst_path E n)
                       = fs (snd (convert_icon E n w)) (dst_path E n)))
    \<and> (ICONS = pre @ n # post \<and> list_all (returns E w) pre \<longrightarrow>
        fst (convert_loop E pre a w) =
          Inr (a + int (length (filter (\<lambda>m. fst (convert_icon E m w) = Inr True) pre)))
      \<and> fst (convert_icon E n (snd (convert_loop E pre a w))) = fst (convert_icon E n w)
      \<and> convert_loop E ICONS a w =
          convert_loop E (n # post)
            (a + int (length (filter (\<lambda>m. fst (convert_icon E m w) = Inr True) pre)))
            (snd (convert_loop E pre a w))
      \<and> fs (snd (convert_loop E ICONS a w)) (dst_path E n)
          = fs (snd (convert_icon E n w)) (dst_path E n)
      \<and> fs (snd (main E w)) (dst_path E n) = fs (snd (convert_icon E n w)) (dst_path E n))"
proof (intro conjI allI impI)
  assume m: "m \<in> set ICONS \<and> m \<noteq> n"
  let ?w1 = "snd (convert_icon E m w)"
  from assms m have o: "same_outlook E n w ?w1"
    and d: "fs ?w1 (dst_path E n) = fs w (dst_path E n)"
    by (simp_all add: convert_icon_other_outlook)
  from o show "fst (convert_icon E n ?w1) = fst (convert_icon E n w)"
    by (rule same_outlook_result)
  from o d show "fs (snd (convert_icon E n ?w1)) (dst_path E n)
      = fs (snd (convert_icon E n w)) (dst_path E n)"
    by (rule same_outlook_left)
next
  fix v
  assume a: "fs v (src_path E n) = fs w (src_path E n) \<and> can_write E v n = can_write E w n"
  then show "fst (convert_icon E n v) = fst (convert_icon E n w)"
    by (intro same_source_result) simp_all
  assume "fst (convert_icon E n w) = Inr True"
  with a show "fs (snd (convert_icon E n v)) (dst_path E n)
      = fs (snd (convert_icon E n w)) (dst_path E n)"
    by (intro same_source_result) simp_all
next
  assume b: "ICONS = pre @ n # post \<and> list_all (returns E w) pre"
  then have sp: "ICONS = pre @ n # post" and rp: "list_all (returns E w) pre" by simp_all
  note bl = batch_leaves [OF assms sp rp]
  show "fst (convert_loop E pre a w) =
          Inr (a + int (length (filter (\<lambda>m. fst (convert_icon E m w) = Inr True) pre)))"
    by (rule bl)
  show "fst (convert_icon E n (snd (convert_loop E pre a w))) = fst (convert_icon E n w)"
    by (rule bl)
  show "convert_loop E ICONS a w =
          convert_loop E (n # post)
            (a + int (length (filter (\<lambda>m. fst (convert_icon E m w) = Inr True) pre)))
            (snd (convert_loop E pre a w))"
    by (rule bl)
  show "fs (snd (convert_loop E ICONS a w)) (dst_path E n)
          = fs (snd (convert_icon E n w)) (dst_path E n)"
    by (rule bl)
  let ?w3 = "print [] (print (''Output: '' @ str_path (DST_DIR E))
          (print (''Source: '' @ str_path (SRC_DIR E)) w))"
  from rp have "list_all (returns E ?w3) pre"
    by (simp only: print_returns)
  from batch_leaves(4) [OF assms sp this, of 0]
  have "fs (snd (convert_loop E ICONS 0 ?w3)) (dst_path E n)
      = fs (snd (convert_icon E n ?w3)) (dst_path E n)" .
  also have "\<dots> = fs (snd (convert_icon E n w)) (dst_path E n)"
    by (simp only: print_left)
  finally show "fs (snd (main E w)) (dst_path E n) = fs (snd (convert_icon E n w)) (dst_path E n)"
    by (simp only: main_fs)
qed

section \<open>Concrete runs\<close>

lemma example_base: "BASE_DIR example_env = [''repo'', ''src'', ''manager'', ''resources'']"
  by (simp add: base_dir_eq example_env_def)

lemma example_src:
  "n \<in> set ICONS \<Longrightarrow>
     src_path example_env n = [''repo'', ''src'', ''manager'', ''resources'', ''material'', n @ ''.png'']"
  by (simp add: icon_src_path example_base)

lemma example_dst:
  "n \<in> set ICONS \<Longrightarrow>
     dst_path example_env n = [''repo'', ''src'', ''manager'', ''resources'', n @ ''.bmp'']"
  by (simp add: icon_dst_path example_base)

lemma example_decode:
  "decode_rgba example_env (v # vs) =
     Some \<lparr>isize = (2, 1), idata = [(0, 0, 0, v), (200, 30, 50, v - 1)]\<rparr>"
  by (simp add: example_env_def)

lemma example_edit_ok:
  "fst (convert_icon example_env ''edit'' example_world) = Inr True"
proof -
  have 1: "fs example_world (src_path example_env ''edit'') = Some (File [255])"
    by (simp add: example_paths example_world_def example_tree_def bare_tree_def)
  have 2: "decode_rgba example_env [255] =
       Some \<lparr>isize = (2, 1), idata = [(0, 0, 0, 255), (200, 30, 50, 254)]\<rparr>"
    by (simp add: example_env_def)
  have 3: "can_write example_env example_world ''edit''"
    by (simp add: can_write_def example_paths parent_def example_world_def example_tree_def bare_tree_def is_file_def)
  show ?thesis by (simp add: convert_icon_ok [OF 1 2 3])
qed

lemma corrupt_edit_ok:
  "fst (convert_icon example_env ''edit'' corrupt_world) = Inr True"
proof -
  have 1: "fs corrupt_world (src_path example_env ''edit'') = Some (File [255])"
    by (simp add: example_paths corrupt_world_def example_tree_def bare_tree_def)
  have 2: "decode_rgba example_env [255] =
       Some \<lparr>isize = (2, 1), idata = [(0, 0, 0, 255), (200, 30, 50, 254)]\<rparr>"
    by (simp add: example_env_def)
  have 3: "can_write example_env corrupt_world ''edit''"
    by (simp add: can_write_def example_paths parent_def corrupt_world_def example_tree_def bare_tree_def is_file_def)
  show ?thesis by (simp add: convert_icon_ok [OF 1 2 3])
qed

lemma example_exists:
  "filter (\<lambda>n. path_exists example_world (src_path example_env n)) ICONS
     = [''edit'', ''stop'', ''reboot'']"
proof -
  have "filter (\<lambda>n. path_exists example_world (src_path example_env n)) ICONS
      = filter (\<lambda>n. path_exists example_world
          [''repo'', ''src'', ''manager'', ''resources'', ''material'', n @ ''.png'']) ICONS"
    by (rule filter_cong) (simp_all add: example_src)
  also have "\<dots> = [''edit'', ''stop'', ''reboot'']"
    by (simp add: ICONS_def path_exists_def example_world_def example_tree_def bare_tree_def)
  finally show ?thesis .
qed

lemma corrupt_exists:
  "filter (\<lambda>n. path_exists corrupt_world (src_path example_env n)) ICONS
     = [''new_vm'', ''edit'', ''stop'']"
proof -
  have "filter (\<lambda>n. path_exists corrupt_world (src_path example_env n)) ICONS
      = filter (\<lambda>n. path_exists corrupt_world
          [''repo'', ''src'', ''manager'', ''resources'', ''material'', n @ ''.png'']) ICONS"
    by (rule filter_cong) (simp_all add: example_src)
  also have "\<dots> = [''new_vm'', ''edit'', ''stop'']"
    by (simp add: ICONS_def path_exists_def corrupt_world_def example_tree_def bare_tree_def)
  finally show ?thesis .
qed

lemma example_convertible:
  "list_all (\<lambda>n. path_exists example_world (src_path example_env n)
      \<longrightarrow> convertible example_env example_world n) ICONS"
proof -
  have "path_exists example_world (src_path example_env n)
      \<longrightarrow> convertible example_env example_world n" if "n \<in> set ICONS" for n
  proof
    assume "path_exists example_world (src_path example_env n)"
    with that have "n \<in> set (filter (\<lambda>n. path_exists example_world (src_path example_env n)) ICONS)"
      by simp
    then have "n = ''edit'' \<or> n = ''stop'' \<or> n = ''reboot''"
      unfolding example_exists by simp
    moreover have "convertible example_env example_world ''edit''"
      by (simp add: convertible_def can_write_def example_src example_dst ICONS_def parent_def
          example_world_def example_tree_def bare_tree_def example_decode is_file_def)
    moreover have "convertible example_env example_world ''stop''"
      by (simp add: convertible_def can_write_def example_src example_dst ICONS_def parent_def
          example_world_def example_tree_def bare_tree_def example_decode is_file_def)
    moreover have "convertible example_env example_world ''reboot''"
      by (simp add: convertible_def can_write_def example_src example_dst ICONS_def parent_def
          example_world_def example_tree_def bare_tree_def example_decode is_file_def)
    ultimately show "convertible example_env example_world n" by blast
  qed
  then show ?thesis by (simp add: list_all_iff)
qed

theorem batch_summary_witness:
  "list_all (\<lambda>n. path_exists example_world (src_path example_env n)
      \<longrightarrow> convertible example_env example_world n) ICONS
   \<and> length (filter (\<lambda>n. path_exists example_world (src_path example_env n)) ICONS) = 3
   \<and> fst (main example_env example_world) = Inr ()
   \<and> last (console (snd (main example_env example_world))) = ''Converted 3/7 icons''"
proof -
  have 3: "length (filter (\<lambda>n. path_exists example_world (src_path example_env n)) ICONS) = 3"
    by (simp add: example_exists)
  from batch_summary [OF example_convertible] 3 example_convertible
  show ?thesis by blast
qed

text \<open>
  Claim C6 as stated fails: with exactly three existing sources, the first of them an
  empty file that Pillow cannot decode, the batch ends with the exception of the first
  conversion and prints no summary.
\<close>

theorem batch_stops_at_undecodable:
  "length (filter (\<lambda>n. path_exists corrupt_world (src_path example_env n)) ICONS) = 3
   \<and> fst (main example_env corrupt_world) = Inl DecodeError
   \<and> console (snd (main example_env corrupt_world)) =
       [''Source: /repo/src/manager/resources/material'',
        ''Output: /repo/src/manager/resources'', []]"
proof -
  let ?w3 = "print [] (print (''Output: '' @ str_path (DST_DIR example_env))
          (print (''Source: '' @ str_path (SRC_DIR example_env)) corrupt_world))"
  have 1: "fs ?w3 (src_path example_env ''new_vm'') = Some (File [])"
    by (simp add: fs_print example_src ICONS_def corrupt_world_def example_tree_def bare_tree_def)
  have 2: "decode_rgba example_env [] = None"
    by (simp add: example_env_def)
  have c: "convert_icon example_env ''new_vm'' ?w3 = (Inl DecodeError, ?w3)"
    by (rule convert_icon_undecodable [OF 1 2])
  have l: "convert_loop example_env ICONS 0 ?w3 = (Inl DecodeError, ?w3)"
    unfolding ICONS_def convert_loop_step [OF c] by simp
  have m: "main example_env corrupt_world = (Inl DecodeError, ?w3)"
    unfolding main_def Let_def l by simp
  have p: "str_path (SRC_DIR example_env) = ''/repo/src/manager/resources/material''"
    "str_path (DST_DIR example_env) = ''/repo/src/manager/resources''"
    by (simp_all add: SRC_DIR_def DST_DIR_def example_base joinpath_def path_parts_def str_path_def)
  have 3: "length (filter (\<lambda>n. path_exists corrupt_world (src_path example_env n)) ICONS) = 3"
    by (simp add: corrupt_exists)
  have 4: "console (snd (main example_env corrupt_world)) =
       [''Source: /repo/src/manager/resources/material'',
        ''Output: /repo/src/manager/resources'', []]"
    unfolding m by (simp add: print_def p corrupt_world_def example_tree_def bare_tree_def)
  from 3 4 m show ?thesis by simp
qed

theorem batch_rerun_same_files_witness:
  "fst (convert_icon example_env ''edit'' example_world) = Inr True
   \<and> fs (snd (main example_env (snd (main example_env example_world))))
       = fs (snd (main example_env example_world))
   \<and> (\<exists>bs out. fs example_world (src_path example_env ''edit'') = Some (File bs)
         \<and> output_bytes example_env bs = Some out
         \<and> fs (snd (convert_icon example_env ''edit'' example_world))
               (dst_path example_env ''edit'') = Some (File out))"
  using batch_rerun_same_files [of example_env example_world "''edit''"] example_edit_ok
  by blast

lemma blocked_edit_raises:
  "fst (convert_icon example_env ''edit'' blocked_world) = Inl OSError"
proof -
  have 1: "fs blocked_world (src_path example_env ''edit'') = Some (File [255])"
    by (simp add: example_paths blocked_world_def example_tree_def bare_tree_def)
  have 2: "decode_rgba example_env [255] =
       Some \<lparr>isize = (2, 1), idata = [(0, 0, 0, 255), (200, 30, 50, 254)]\<rparr>"
    by (simp add: example_env_def)
  have 3: "\<not> can_write example_env blocked_world ''edit''"
    by (simp add: can_write_def example_paths blocked_world_def example_tree_def bare_tree_def)
  from 1 2 3 show ?thesis by (rule convert_icon_cannot_write)
qed

text \<open>
  Claim C8 as stated fails: two worlds hold the same source file for a name, and the
  conversion returns true in one and raises in the other, where the output path is a
  directory; the two calls leave different contents at the output path.
\<close>

theorem same_source_other_outcome:
  "fs blocked_world (src_path example_env ''edit'')
     = fs example_world (src_path example_env ''edit'')
   \<and> fst (convert_icon example_env ''edit'' blocked_world) = Inl OSError
   \<and> fst (convert_icon example_env ''edit'' example_world) = Inr True
   \<and> fs (snd (convert_icon example_env ''edit'' blocked_world)) (dst_path example_env ''edit'')
       \<noteq> fs (snd (convert_icon example_env ''edit'' example_world)) (dst_path example_env ''edit'')"
proof -
  have s: "fs blocked_world (src_path example_env ''edit'')
     = fs example_world (src_path example_env ''edit'')"
    by (simp add: example_paths blocked_world_def example_world_def example_tree_def bare_tree_def)
  have "fs (snd (convert_icon example_env ''edit'' blocked_world)) (dst_path example_env ''edit'')
      = fs blocked_world (dst_path example_env ''edit'')"
    by (rule convert_icon_unwritten) (simp add: blocked_edit_raises)
  also have "\<dots> = Some Dir"
    by (simp add: example_paths blocked_world_def example_tree_def bare_tree_def)
  finally have b: "fs (snd (convert_icon example_env ''edit'' blocked_world))
      (dst_path example_env ''edit'') = Some Dir" .
  from convert_icon_written [OF example_edit_ok]
  obtain out where "fs (snd (convert_icon example_env ''edit'' example_world))
      (dst_path example_env ''edit'') = Some (File out)" by blast
  with b have "fs (snd (convert_icon example_env ''edit'' blocked_world)) (dst_path example_env ''edit'')
       \<noteq> fs (snd (convert_icon example_env ''edit'' example_world)) (dst_path example_env ''edit'')"
    by simp
  with s blocked_edit_raises example_edit_ok show ?thesis by blast
qed

lemma example_new_vm_returns: "list_all (returns example_env example_world) [''new_vm'']"
proof -
  have "fs example_world (src_path example_env ''new_vm'') = None"
    by (simp add: example_src ICONS_def example_world_def example_tree_def bare_tree_def)
  then show ?thesis by (simp add: returns_def convert_icon_skip)
qed

lemma example_can_write:
  "can_write example_env corrupt_world ''edit''" "can_write example_env example_world ''edit''"
  by (simp_all add: can_write_def example_paths parent_def corrupt_world_def example_world_def
      example_tree_def bare_tree_def is_file_def)

theorem icons_independent_witness:
  "''edit'' \<in> set ICONS \<and> ''delete'' \<in> set ICONS \<and> ''delete'' \<noteq> ''edit''
   \<and> fst (convert_icon example_env ''delete'' example_world) = Inr False
   \<and> fst (convert_icon example_env ''edit''
            (snd (convert_icon example_env ''delete'' example_world))) = Inr True
   \<and> fs corrupt_world (src_path example_env ''edit'')
       = fs example_world (src_path example_env ''edit'')
   \<and> can_write example_env corrupt_world ''edit'' = can_write example_env example_world ''edit''
   \<and> fst (convert_icon example_env ''edit'' corrupt_world) = Inr True
   \<and> fs (snd (convert_icon example_env ''edit'' corrupt_world)) (dst_path example_env ''edit'')
       = fs (snd (convert_icon example_env ''edit'' example_world)) (dst_path example_env ''edit'')
   \<and> ICONS = [''new_vm''] @ ''edit'' # [''delete'', ''start'', ''stop'', ''reboot'', ''shutdown'']
   \<and> list_all (returns example_env example_world) [''new_vm'']
   \<and> fst (convert_icon example_env ''edit''
            (snd (convert_loop example_env [''new_vm''] 0 example_world))) = Inr True
   \<and> fs (snd (main example_env example_world)) (dst_path example_env ''edit'')
       = fs (snd (convert_icon example_env ''edit'' example_world)) (dst_path example_env ''edit'')"
proof -
  have i: "''edit'' \<in> set ICONS" and j: "''delete'' \<in> set ICONS \<and> ''delete'' \<noteq> ''edit''"
    by (simp_all add: ICONS_def)
  have sp: "ICONS = [''new_vm''] @ ''edit'' # [''delete'', ''start'', ''stop'', ''reboot'', ''shutdown'']"
    by (simp add: ICONS_def)
  note t = icons_independent [OF i, of "''delete''" example_env example_world
      "[''new_vm'']" "[''delete'', ''start'', ''stop'', ''reboot'', ''shutdown'']" 0]
  have d: "fst (convert_icon example_env ''delete'' example_world) = Inr False"
    by (simp add: convert_icon_skip example_src ICONS_def example_world_def example_tree_def
        bare_tree_def)
  have s: "fs corrupt_world (src_path example_env ''edit'')
       = fs example_world (src_path example_env ''edit'')"
    by (simp add: example_paths corrupt_world_def example_world_def example_tree_def bare_tree_def)
  have c: "can_write example_env corrupt_world ''edit'' = can_write example_env example_world ''edit''"
    by (simp add: example_can_write)
  note t1 = t [THEN conjunct1, THEN mp, OF j]
  note t2 = t [THEN conjunct2, THEN conjunct1, THEN spec [of _ corrupt_world], THEN mp,
      OF conjI [OF s c]]
  note t3 = t [THEN conjunct2, THEN conjunct2, THEN mp, OF conjI [OF sp example_new_vm_returns]]
  from t1 [THEN conjunct1] example_edit_ok
  have 1: "fst (convert_icon example_env ''edit''
            (snd (convert_icon example_env ''delete'' example_world))) = Inr True"
    by (rule trans)
  from t2 [THEN conjunct1] example_edit_ok
  have 2: "fst (convert_icon example_env ''edit'' corrupt_world) = Inr True"
    by (rule trans)
  from t2 [THEN conjunct2, THEN mp, OF example_edit_ok]
  have 3: "fs (snd (convert_icon example_env ''edit'' corrupt_world)) (dst_path example_env ''edit'')
       = fs (snd (convert_icon example_env ''edit'' example_world)) (dst_path example_env ''edit'')" .
  from t3 [THEN conjunct2, THEN conjunct1] example_edit_ok
  have 4: "fst (convert_icon example_env ''edit''
            (snd (convert_loop example_env [''new_vm''] 0 example_world))) = Inr True"
    by (rule trans)
  note 5 = t3 [THEN conjunct2, THEN conjunct2, THEN conjunct2, THEN conjunct2]
  show ?thesis
    by (intro conjI i j [THEN conjunct1] j [THEN conjunct2] d 1 s c 2 3 sp
        example_new_vm_returns 4 5)
qed

end
